theory Spec2Isabelle
  imports Complex_Main
begin

section \<open>Data model: the DataFrame that \<open>load_data\<close> hands to \<open>detect_anomalies\<close>\<close>

text \<open>
  A value stored in a column of dtype \<open>object\<close>: text, a boolean, or a number.
\<close>

datatype pyobj = Str string | Bool bool | Number rat

text \<open>
  A pandas Series carries one dtype for all its cells. The numeric dtypes (int64, float64:
  what \<open>select_dtypes(include=np.number)\<close> keeps) hold numbers with NaN as the absent
  cell; the bool dtype has no absent cell; the object dtype holds arbitrary Python objects
  with None/NaN as the absent cell. An absent cell is \<open>None\<close>.
\<close>

datatype coldata =
    Numeric "rat option list"
  | Boolean "bool list"
  | Object "pyobj option list"

record series =
  name :: string
  data :: coldata

text \<open>
  The DataFrame as \<open>pd.read_csv\<close> builds it: the index, one label per row, and the
  columns in file order. Rows are told apart by position; \<open>index df ! p\<close> is the label of
  the row at position \<open>p\<close>. By default the index is the RangeIndex \<open>0..N-1\<close>, where a
  row's label is its position. When the data rows have one field more than the header,
  \<open>read_csv\<close> takes the first field of each row as its label instead: the labels are then
  whatever the file holds, in any order and possibly repeated. The type \<open>'l\<close> of the
  labels is left open.
\<close>

record 'l dataframe =
  index :: "'l list"
  columns :: "series list"

text \<open>\<open>len(df)\<close>: the number of rows.\<close>

definition nrows :: "'l dataframe \<Rightarrow> nat" where
  "nrows df = length (index df)"

text \<open>The default index of a frame of \<open>n\<close> rows.\<close>

definition range_index :: "nat \<Rightarrow> int list" where
  "range_index n = map int [0..<n]"

text \<open>The cells of a column as Python objects, whatever the dtype.\<close>

definition cells :: "series \<Rightarrow> pyobj option list" where
  "cells s = (case data s of
       Numeric xs \<Rightarrow> map (map_option Number) xs
     | Boolean bs \<Rightarrow> map (\<lambda>b. Some (Bool b)) bs
     | Object os \<Rightarrow> os)"

text \<open>
  What every DataFrame of \<open>read_csv\<close> satisfies: the column names are distinct (it
  renames duplicates) and every column has one cell per row of the index.
\<close>

definition wf_df :: "'l dataframe \<Rightarrow> bool" where
  "wf_df df \<longleftrightarrow> distinct (map name (columns df)) \<and>
     list_all (\<lambda>s. length (cells s) = nrows df) (columns df)"

text \<open>
  The anomaly dictionaries; \<open>atype\<close> is the key \<open>type\<close>. \<open>sample_values\<close> is a list
  of index labels in the missing-value record and a list of cell values in the other two;
  \<open>original_indices\<close> is a list of index labels, and the key is absent from the
  missing-value record.
\<close>

datatype 'l pyval = Label 'l | Cell "pyobj option"

record 'l anomaly =
  atype :: string
  column :: string
  description :: string
  sample_values :: "'l pyval list"
  original_indices :: "'l list option"

text \<open>
  Exceptions: a ValueError (or a subclass, which \<open>except ValueError\<close> catches as well)
  with its message, or an exception of any other class, with the class name and message.
\<close>

datatype exn =
    ValueError string
  | OtherError string string

section \<open>Text formatting\<close>

definition digit_char :: "nat \<Rightarrow> char" where
  "digit_char d = ''0123456789'' ! (d mod 10)"

text \<open>The decimal text of a non-negative Python integer.\<close>

function str_int :: "int \<Rightarrow> string" where
  "str_int n = (if n < 10 then [digit_char (nat n)] else str_int (n div 10) @ [digit_char (nat (n mod 10))])"
  by pat_completeness auto
termination
  by (relation "measure nat") auto

declare str_int.simps [simp del]

section \<open>binary64 arithmetic of the missing-value percentage\<close>

text \<open>
  \<open>missing_count / len(df)\<close> divides a numpy int64 by a Python int: both become binary64
  and the quotient is rounded to the nearest binary64, ties to even; \<open>* 100\<close> rounds once
  more. A finite binary64 is kept as the rational it denotes. The values met here lie in
  the normal range (row counts are below \<open>2^53\<close>), so 53 significant bits are kept and no
  overflow or subnormal arises. Division by zero gives numpy's \<open>inf\<close> or \<open>nan\<close>.
\<close>

datatype float64 = Finite rat | Infinity | NotANumber

definition round_half_even :: "rat \<Rightarrow> int" where
  "round_half_even q =
     (let f = \<lfloor>q\<rfloor>; r = q - of_int f
      in if r < 1 / 2 then f else if 1 / 2 < r then f + 1 else if even f then f else f + 1)"

definition pow2 :: "int \<Rightarrow> rat" where
  "pow2 e = (if 0 \<le> e then 2 ^ nat e else 1 / 2 ^ nat (- e))"

function bit_length :: "int \<Rightarrow> nat" where
  "bit_length n = (if n \<le> 0 then 0 else Suc (bit_length (n div 2)))"
  by pat_completeness auto
termination
  by (relation "measure nat") auto

declare bit_length.simps [simp del]

definition ilog2 :: "rat \<Rightarrow> int" where
  "ilog2 q =
     (let (a, b) = quotient_of q;
          k = int (bit_length a) - int (bit_length b)
      in if pow2 k \<le> q then k else k - 1)"

definition rnd64 :: "rat \<Rightarrow> rat" where
  "rnd64 q =
     (if q \<le> 0 then 0
      else let e = ilog2 q - 52
           in of_int (round_half_even (q / pow2 e)) * pow2 e)"

definition missing_percentage :: "nat \<Rightarrow> nat \<Rightarrow> float64" where
  "missing_percentage missing_count n =
     (if n = 0 then (if missing_count = 0 then NotANumber else Infinity)
      else Finite (rnd64 (rnd64 (of_nat missing_count / of_nat n) * 100)))"

text \<open>
  The format \<open>:.2f\<close> prints the decimal with two places nearest to the binary64's exact
  value, ties to even. Only non-negative values are formatted here.
\<close>

definition format_2f :: "float64 \<Rightarrow> string" where
  "format_2f x = (case x of
       Infinity \<Rightarrow> ''inf''
     | NotANumber \<Rightarrow> ''nan''
     | Finite q \<Rightarrow>
         (let k = round_half_even (q * 100)
          in str_int (k div 100) @ ''.'' @ [digit_char (nat (k div 10 mod 10)), digit_char (nat (k mod 10))]))"

section \<open>The state of one call of \<open>detect_anomalies\<close>\<close>

text \<open>
  The list \<open>anomalies\<close> that the function appends to, and the lines it prints.
\<close>

record 'l state =
  anomalies :: "'l anomaly list"
  stdout :: "string list"

text \<open>A \<open>for\<close> loop whose body may raise: the first exception leaves the loop.\<close>

fun for_each :: "('a \<Rightarrow> 's \<Rightarrow> exn + 's) \<Rightarrow> 'a list \<Rightarrow> 's \<Rightarrow> exn + 's" where
  "for_each body [] st = Inr st"
| "for_each body (x # xs) st =
     (case body x st of Inl e \<Rightarrow> Inl e | Inr st' \<Rightarrow> for_each body xs st')"

section \<open>1. Missing values\<close>

definition isnull :: "pyobj option \<Rightarrow> bool" where
  "isnull c \<longleftrightarrow> c = None"

text \<open>The positions at which the mask \<open>df[col].isnull()\<close> is true.\<close>

definition null_rows :: "series \<Rightarrow> nat list" where
  "null_rows col = [p \<leftarrow> [0..<length (cells col)]. isnull (cells col ! p)]"

text \<open>
  \<open>df[mask].index.tolist()\<close>: the index labels of the rows at the given positions, in
  that order.
\<close>

definition row_labels :: "'l dataframe \<Rightarrow> nat list \<Rightarrow> 'l list" where
  "row_labels df rows = map (\<lambda>p. index df ! p) rows"

text \<open>\<open>df[df[col].isnull()].index.tolist()\<close>: the labels of the rows whose cell is absent.\<close>

definition null_index :: "'l dataframe \<Rightarrow> series \<Rightarrow> 'l list" where
  "null_index df col = row_labels df (null_rows col)"

text \<open>\<open>df[col].isnull().sum()\<close>: the number of absent cells.\<close>

definition isnull_sum :: "series \<Rightarrow> nat" where
  "isnull_sum col = length (filter isnull (cells col))"

definition missing_values_step :: "'l dataframe \<Rightarrow> series \<Rightarrow> 'l state \<Rightarrow> 'l state" where
  "missing_values_step df col st =
     (if list_ex isnull (cells col) then
        (let missing_count = isnull_sum col
         in st\<lparr>anomalies := anomalies st @
              [\<lparr>atype = ''Missing Values'',
                column = name col,
                description = str_int (int missing_count) @ '' ('' @
                   format_2f (missing_percentage missing_count (nrows df)) @
                   ''%) missing values found.'',
                sample_values = map Label (take 3 (null_index df col)),
                original_indices = None\<rparr>]\<rparr>)
      else st)"

section \<open>2. Outliers of the numerical columns\<close>

text \<open>
  \<open>IsolationForest(contamination='auto', random_state=42)\<close>, \<open>fit\<close> and
  \<open>decision_function\<close> belong to scikit-learn and \<open>np.percentile\<close> to numpy: both are
  parameters of the model. The forest maps the sample array to its scores or raises; the
  scores are kept as rationals.
\<close>

type_synonym isolation_forest = "rat list \<Rightarrow> exn + rat list"

type_synonym percentile = "rat list \<Rightarrow> nat \<Rightarrow> rat"

text \<open>\<open>df.select_dtypes(include=np.number).columns\<close>, each name with its column.\<close>

definition numerical_cols :: "'l dataframe \<Rightarrow> (string \<times> rat option list) list" where
  "numerical_cols df =
     List.map_filter (\<lambda>s. case data s of Numeric xs \<Rightarrow> Some (name s, xs) | _ \<Rightarrow> None) (columns df)"

text \<open>
  \<open>df[col].dropna()\<close>: the present values, each with the position of its row in the
  frame; the label it keeps is the index entry at that position.
\<close>

definition dropna :: "rat option list \<Rightarrow> (nat \<times> rat) list" where
  "dropna xs = List.map_filter (\<lambda>(i, x). map_option (Pair i) x) (enumerate 0 xs)"

definition nunique :: "rat option list \<Rightarrow> nat" where
  "nunique xs = length (remdups (map snd (dropna xs)))"

text \<open>
  \<open>df.loc[labels, col]\<close>: for each label of the list in turn, the cells of the column in
  every row that bears the label, in row order. Under a repeated label these are several
  rows.
\<close>

definition loc :: "'l dataframe \<Rightarrow> 'l list \<Rightarrow> rat option list \<Rightarrow> rat option list" where
  "loc df labels xs =
     concat (map (\<lambda>l. map (\<lambda>p. xs ! p) [p \<leftarrow> [0..<length xs]. index df ! p = l]) labels)"

text \<open>
  The body of the \<open>try\<close>. \<open>iloc\<close> raises IndexError for a position beyond the present
  values, which a forest returning more scores than samples would cause.
\<close>

definition isolation_forest_block ::
  "'l dataframe \<Rightarrow> isolation_forest \<Rightarrow> percentile \<Rightarrow> string \<Rightarrow> rat option list \<Rightarrow>
     'l anomaly list \<Rightarrow> exn + 'l anomaly list" where
  "isolation_forest_block df forest np_percentile col xs anoms =
     (let temp_col_data = map snd (dropna xs)
      in case forest temp_col_data of
           Inl e \<Rightarrow> Inl e
         | Inr outlier_scores \<Rightarrow>
             (let outlier_indices =
                    [i \<leftarrow> [0..<length outlier_scores].
                       outlier_scores ! i < np_percentile outlier_scores 5]
              in if 0 < length outlier_indices then
                   (if list_all (\<lambda>i. i < length (dropna xs)) outlier_indices then
                      (let original_indices =
                             row_labels df (map (\<lambda>i. fst (dropna xs ! i)) outlier_indices)
                       in Inr (anoms @
                            [\<lparr>atype = ''Outlier (Numerical)'',
                              column = col,
                              description = ''Potential outliers detected using Isolation Forest. Score below 5th percentile.'',
                              sample_values =
                                map (\<lambda>x. Cell (map_option Number x))
                                  (take 3 (loc df original_indices xs)),
                              original_indices = Some (take 3 original_indices)\<rparr>]))
                    else Inl (OtherError ''IndexError'' ''positional indexers are out-of-bounds''))
                 else Inr anoms))"

definition outlier_step ::
  "'l dataframe \<Rightarrow> isolation_forest \<Rightarrow> percentile \<Rightarrow> string \<times> rat option list \<Rightarrow>
     'l state \<Rightarrow> exn + 'l state" where
  "outlier_step df forest np_percentile cx st =
     (case cx of (col, xs) \<Rightarrow>
        if 1 < nunique xs then
          (if 1 < length (dropna xs) then
             (case isolation_forest_block df forest np_percentile col xs (anomalies st) of
                Inr anoms \<Rightarrow> Inr (st\<lparr>anomalies := anoms\<rparr>)
              | Inl (ValueError e) \<Rightarrow>
                  Inr (st\<lparr>stdout := stdout st @
                         [''Could not run IsolationForest on '' @ col @ '': '' @ e]\<rparr>)
              | Inl (OtherError c m) \<Rightarrow> Inl (OtherError c m))
           else Inr st)
        else Inr st)"

section \<open>3. Invalid email format\<close>

definition is_alpha :: "char \<Rightarrow> bool" where
  "is_alpha c \<longleftrightarrow> c \<in> set ''abcdefghijklmnopqrstuvwxyzABCDEFGHIJKLMNOPQRSTUVWXYZ''"

definition is_digit :: "char \<Rightarrow> bool" where
  "is_digit c \<longleftrightarrow> c \<in> set ''0123456789''"

definition local_char :: "char \<Rightarrow> bool" where
  "local_char c \<longleftrightarrow> is_alpha c \<or> is_digit c \<or> c \<in> set ''._%+-''"

definition domain_char :: "char \<Rightarrow> bool" where
  "domain_char c \<longleftrightarrow> is_alpha c \<or> is_digit c \<or> c \<in> set ''.-''"

text \<open>
  The pattern between its anchors, \<open>[a-zA-Z0-9._%+-]+@[a-zA-Z0-9.-]+\.[a-zA-Z]{2,}\<close>, on
  a whole string. No class holds \<open>@\<close>, so the local part ends at the first \<open>@\<close>; the last
  class holds no dot, so the escaped dot is the last dot.
\<close>

definition email_fullmatch :: "string \<Rightarrow> bool" where
  "email_fullmatch s =
     (let local_part = takeWhile (\<lambda>c. c \<noteq> CHR ''@'') s;
          rest = drop (Suc (length local_part)) s;
          tld = rev (takeWhile (\<lambda>c. c \<noteq> CHR ''.'') (rev rest));
          dom = take (length rest - Suc (length tld)) rest
      in length local_part < length s \<and> local_part \<noteq> [] \<and> list_all local_char local_part \<and>
         length tld < length rest \<and> dom \<noteq> [] \<and> list_all domain_char dom \<and>
         2 \<le> length tld \<and> list_all is_alpha tld)"

text \<open>
  What the pattern says, read as a regular expression: a non-empty local part, \<open>@\<close>, a
  non-empty domain, a dot and at least two letters. \<open>email_fullmatch\<close> is compared
  with it below.
\<close>

definition email_pattern :: "string \<Rightarrow> bool" where
  "email_pattern s \<longleftrightarrow>
     (\<exists>l d t. s = l @ ''@'' @ d @ ''.'' @ t \<and>
        l \<noteq> [] \<and> list_all local_char l \<and>
        d \<noteq> [] \<and> list_all domain_char d \<and>
        2 \<le> length t \<and> list_all is_alpha t)"

text \<open>
  \<open>re.search\<close> with \<open>^\<close> and \<open>$\<close>: the dollar also matches just before a final newline.
\<close>

definition email_search :: "string \<Rightarrow> bool" where
  "email_search s \<longleftrightarrow>
     email_fullmatch s \<or> (s \<noteq> [] \<and> last s = CHR 0x0A \<and> email_fullmatch (butlast s))"

text \<open>
  \<open>df['email'].astype(str).str.contains(pattern, na=False)\<close> on one cell. \<open>astype(str)\<close>
  turns an absent cell into the text \<open>nan\<close>, a boolean into \<open>True\<close> or \<open>False\<close> and a
  number into its decimal text; none of these holds \<open>@\<close>, so only text cells can match.
\<close>

definition str_contains_email :: "pyobj option \<Rightarrow> bool" where
  "str_contains_email c = (case c of Some (Str s) \<Rightarrow> email_search s | _ \<Rightarrow> False)"

definition email_step :: "'l dataframe \<Rightarrow> 'l state \<Rightarrow> 'l state" where
  "email_step df st =
     (case find (\<lambda>s. name s = ''email'') (columns df) of
        None \<Rightarrow> st
      | Some col \<Rightarrow>
          (let invalid_emails =
                 [i \<leftarrow> [0..<length (cells col)]. \<not> str_contains_email (cells col ! i)]
           in if invalid_emails \<noteq> [] then
                st\<lparr>anomalies := anomalies st @
                  [\<lparr>atype = ''Invalid Format (Email)'',
                    column = ''email'',
                    description = str_int (int (length invalid_emails)) @
                       '' rows with invalid email format found.'',
                    sample_values = take 3 (map (\<lambda>i. Cell (cells col ! i)) invalid_emails),
                    original_indices = Some (take 3 (row_labels df invalid_emails))\<rparr>]\<rparr>
              else st))"

section \<open>\<open>detect_anomalies\<close> and \<open>load_data\<close>\<close>

definition detect_anomalies_body ::
  "isolation_forest \<Rightarrow> percentile \<Rightarrow> 'l dataframe \<Rightarrow> exn + 'l state" where
  "detect_anomalies_body forest np_percentile df =
     (let st1 = fold (missing_values_step df) (columns df) \<lparr>anomalies = [], stdout = []\<rparr>
      in case for_each (outlier_step df forest np_percentile) (numerical_cols df) st1 of
           Inl e \<Rightarrow> Inl e
         | Inr st2 \<Rightarrow> Inr (email_step df st2))"

definition detect_anomalies ::
  "isolation_forest \<Rightarrow> percentile \<Rightarrow> 'l dataframe \<Rightarrow> exn + 'l anomaly list" where
  "detect_anomalies forest np_percentile df =
     (case detect_anomalies_body forest np_percentile df of
        Inl e \<Rightarrow> Inl e
      | Inr st \<Rightarrow> Inr (anomalies st))"

text \<open>
  The constructor call spelled out. \<open>IsolationForest(contamination='auto',
  random_state=r)\<close> draws its random numbers from a generator of its own when \<open>r\<close> is an
  integer, and from numpy's global generator when \<open>r\<close> is \<open>None\<close>. The estimator is a
  function of the argument \<open>r\<close> and of the state the global generator is in when the
  forest is fitted; \<open>ambient\<close> gives that state for the fit of each column. The loop is
  the one of \<open>detect_anomalies_body\<close>; the source passes \<open>random_state=42\<close>.
\<close>

type_synonym rng = nat

type_synonym estimator = "nat option \<Rightarrow> rng \<Rightarrow> isolation_forest"

definition detect_anomalies_run ::
  "estimator \<Rightarrow> nat option \<Rightarrow> percentile \<Rightarrow> (string \<Rightarrow> rng) \<Rightarrow> 'l dataframe \<Rightarrow> exn + 'l state" where
  "detect_anomalies_run sklearn random_state np_percentile ambient df =
     (let st1 = fold (missing_values_step df) (columns df) \<lparr>anomalies = [], stdout = []\<rparr>
      in case for_each
                (\<lambda>cx. outlier_step df (sklearn random_state (ambient (fst cx))) np_percentile cx)
                (numerical_cols df) st1 of
           Inl e \<Rightarrow> Inl e
         | Inr st2 \<Rightarrow> Inr (email_step df st2))"

definition detect_anomalies_seeded ::
  "estimator \<Rightarrow> percentile \<Rightarrow> (string \<Rightarrow> rng) \<Rightarrow> 'l dataframe \<Rightarrow> exn + 'l state" where
  "detect_anomalies_seeded sklearn np_percentile ambient df =
     detect_anomalies_run sklearn (Some 42) np_percentile ambient df"

text \<open>
  What scikit-learn documents for an integer \<open>random_state\<close>: the result does not depend
  on the global generator.
\<close>

definition seed_contract :: "estimator \<Rightarrow> bool" where
  "seed_contract sklearn \<longleftrightarrow> (\<forall>s g g' xs. sklearn (Some s) g xs = sklearn (Some s) g' xs)"

text \<open>
  \<open>pd.read_csv\<close> is a parameter: it returns the whole DataFrame or raises.
\<close>

datatype io_exn = FileNotFoundError | EmptyDataError | ParserError | OtherIOError string

definition load_data ::
  "('src \<Rightarrow> io_exn + 'l dataframe) \<Rightarrow> 'src \<Rightarrow> io_exn + 'l dataframe option" where
  "load_data read_csv filepath =
     (case read_csv filepath of
        Inr df \<Rightarrow> Inr (Some df)
      | Inl FileNotFoundError \<Rightarrow> Inr None
      | Inl e \<Rightarrow> Inl e)"

text \<open>
  The script of \<open>app.py\<close> around the two calls: a source that does not load stops the
  run (the exception leaves the script, or \<open>None\<close> is reported and \<open>st.stop()\<close> is
  called); a loaded DataFrame goes to \<open>detect_anomalies\<close>.
\<close>

datatype 'l outcome = LoadError io_exn | Report "'l anomaly list" | DetectorError exn

definition run ::
  "('src \<Rightarrow> io_exn + 'l dataframe) \<Rightarrow> isolation_forest \<Rightarrow> percentile \<Rightarrow> 'src \<Rightarrow> 'l outcome" where
  "run read_csv forest np_percentile uploaded_file =
     (case load_data read_csv uploaded_file of
        Inl e \<Rightarrow> LoadError e
      | Inr None \<Rightarrow> LoadError FileNotFoundError
      | Inr (Some df) \<Rightarrow>
          (case detect_anomalies forest np_percentile df of
             Inl e \<Rightarrow> DetectorError e
           | Inr report \<Rightarrow> Report report))"

section \<open>What each detector contributes\<close>

text \<open>
  The records one loop step appends, read off the step itself by running it on the empty
  state.
\<close>

definition empty_state :: "'l state" where
  "empty_state = \<lparr>anomalies = [], stdout = []\<rparr>"

definition emitted_missing :: "'l dataframe \<Rightarrow> series \<Rightarrow> 'l anomaly list" where
  "emitted_missing df col = anomalies (missing_values_step df col empty_state)"

definition emitted_outlier ::
  "'l dataframe \<Rightarrow> isolation_forest \<Rightarrow> percentile \<Rightarrow> string \<times> rat option list \<Rightarrow>
     exn + 'l anomaly list" where
  "emitted_outlier df forest np_percentile cx =
     (case outlier_step df forest np_percentile cx empty_state of
        Inl e \<Rightarrow> Inl e
      | Inr st \<Rightarrow> Inr (anomalies st))"

definition emitted_email :: "'l dataframe \<Rightarrow> 'l anomaly list" where
  "emitted_email df = anomalies (email_step df empty_state)"

fun collect :: "(exn + 'a list) list \<Rightarrow> exn + 'a list" where
  "collect [] = Inr []"
| "collect (r # rs) =
     (case r of
        Inl e \<Rightarrow> Inl e
      | Inr xs \<Rightarrow> (case collect rs of Inl e \<Rightarrow> Inl e | Inr ys \<Rightarrow> Inr (xs @ ys)))"

definition records_of :: "exn + 'a list \<Rightarrow> 'a list" where
  "records_of r = (case r of Inl e \<Rightarrow> [] | Inr xs \<Rightarrow> xs)"

text \<open>
  The positions among the present values that the outlier detector flags, given their
  scores, and the positions in the frame of the rows they belong to.
\<close>

definition flagged_positions :: "percentile \<Rightarrow> rat list \<Rightarrow> nat list" where
  "flagged_positions np_percentile scores =
     [i \<leftarrow> [0..<length scores]. scores ! i < np_percentile scores 5]"

definition flagged_rows :: "percentile \<Rightarrow> rat list \<Rightarrow> rat option list \<Rightarrow> nat list" where
  "flagged_rows np_percentile scores xs =
     map (\<lambda>i. fst (dropna xs ! i)) (flagged_positions np_percentile scores)"

definition eligible :: "rat option list \<Rightarrow> bool" where
  "eligible xs \<longleftrightarrow> 1 < nunique xs \<and> 1 < length (dropna xs)"

text \<open>The positions of the rows the email check collects.\<close>

definition invalid_email_rows :: "series \<Rightarrow> nat list" where
  "invalid_email_rows col =
     [i \<leftarrow> [0..<length (cells col)]. \<not> str_contains_email (cells col ! i)]"

text \<open>
  The rows named by the sentence "every non-absent value failing the pattern is
  collected", for comparison with \<open>invalid_email_rows\<close>.
\<close>

definition present_failing_rows :: "series \<Rightarrow> nat list" where
  "present_failing_rows col =
     [i \<leftarrow> [0..<length (cells col)].
        \<not> isnull (cells col ! i) \<and> \<not> str_contains_email (cells col ! i)]"

text \<open>
  A forest as scikit-learn's behaves towards this code: one score per sample, and no
  exception other than ValueError.
\<close>

definition sklearn_like :: "isolation_forest \<Rightarrow> bool" where
  "sklearn_like forest \<longleftrightarrow>
     (\<forall>xs. case forest xs of
             Inr scores \<Rightarrow> length scores = length xs
           | Inl (ValueError m) \<Rightarrow> True
           | Inl (OtherError c m) \<Rightarrow> False)"

text \<open>A column the outlier detector fits a forest on.\<close>

definition outlier_eligible :: "series \<Rightarrow> bool" where
  "outlier_eligible col = (case data col of Numeric xs \<Rightarrow> eligible xs | _ \<Rightarrow> False)"

text \<open>
  A dataset in which no detector finds an issue: no cell is absent, the forest of every
  eligible column flags nothing (or is skipped on a ValueError), and no cell of an
  \<open>email\<close> column fails the check.
\<close>

definition nothing_found :: "isolation_forest \<Rightarrow> percentile \<Rightarrow> 'l dataframe \<Rightarrow> bool" where
  "nothing_found forest np_percentile df \<longleftrightarrow>
     (\<forall>col\<in>set (columns df). \<not> list_ex isnull (cells col)) \<and>
     (\<forall>(c, xs)\<in>set (numerical_cols df). eligible xs \<longrightarrow>
        (case forest (map snd (dropna xs)) of
           Inr scores \<Rightarrow> flagged_positions np_percentile scores = []
         | Inl (ValueError m) \<Rightarrow> True
         | Inl (OtherError k m) \<Rightarrow> False)) \<and>
     (\<forall>col. find (\<lambda>s. name s = ''email'') (columns df) = Some col \<longrightarrow>
        invalid_email_rows col = [])"

section \<open>Concrete inputs\<close>

text \<open>
  numpy's default (linear) percentile in exact arithmetic; of an empty array numpy
  returns nan, which no score is below, as no score is below the \<open>0\<close> used here.
\<close>

definition percentile_linear :: percentile where
  "percentile_linear a q =
     (if a = [] then 0
      else let s = sort a;
               pos = of_nat q / 100 * of_nat (length s - 1);
               lo = nat \<lfloor>pos\<rfloor>;
               hi = min (lo + 1) (length s - 1)
           in s ! lo + (pos - of_int \<lfloor>pos\<rfloor>) * (s ! hi - s ! lo))"

text \<open>
  Stand-ins for the fitted forest: one that scores values above 50 as isolated, and ones
  that raise.
\<close>

definition far_forest :: isolation_forest where
  "far_forest xs = Inr (map (\<lambda>x. if 50 < x then - 1 / 5 else 1 / 10) xs)"

definition value_error_forest :: isolation_forest where
  "value_error_forest xs = Inl (ValueError ''Input contains infinity'')"

definition memory_error_forest :: isolation_forest where
  "memory_error_forest xs = Inl (OtherError ''MemoryError'' ''out of memory'')"

text \<open>Frames with the default index.\<close>

definition age_column :: series where
  "age_column = \<lparr>name = ''age'', data = Numeric
     [Some 31, Some 31, None, Some 31, Some 31, None, Some 31, Some 31, None, Some 31]\<rparr>"

definition df_missing :: "int dataframe" where
  "df_missing = \<lparr>index = range_index 10, columns = [age_column]\<rparr>"

definition amount_values :: "rat option list" where
  "amount_values = [Some 1, Some 2, Some 2, Some 3, Some 2, Some 1, Some 2, Some 3, Some 2, Some 100]"

definition df_outlier :: "int dataframe" where
  "df_outlier = \<lparr>index = range_index 10,
     columns = [\<lparr>name = ''amount'', data = Numeric amount_values\<rparr>]\<rparr>"

definition df_gap :: "int dataframe" where
  "df_gap = \<lparr>index = range_index 5, columns =
     [\<lparr>name = ''amount'', data = Numeric [Some 1, None, Some 2, None, Some 100]\<rparr>]\<rparr>"

definition five_column :: series where
  "five_column = \<lparr>name = ''five'', data = Numeric (replicate 10 (Some 5))\<rparr>"

definition df_constant :: "int dataframe" where
  "df_constant = \<lparr>index = range_index 10, columns = [five_column]\<rparr>"

definition email_column :: series where
  "email_column = \<lparr>name = ''email'', data = Object
     [Some (Str ''a@b.com''), Some (Str ''not-an-email''), Some (Str ''c@d.org'')]\<rparr>"

definition df_email :: "int dataframe" where
  "df_email = \<lparr>index = range_index 3, columns = [email_column]\<rparr>"

definition df_two :: "int dataframe" where
  "df_two = \<lparr>index = range_index 4, columns =
     [\<lparr>name = ''email'', data = Object
        [Some (Str ''a@b.com''), None, Some (Str ''x''), Some (Str ''c@d.org'')]\<rparr>,
      \<lparr>name = ''amount'', data = Numeric [Some 1, Some 2, None, Some 100]\<rparr>]\<rparr>"

definition df_zero_rows :: "int dataframe" where
  "df_zero_rows = \<lparr>index = [], columns =
     [\<lparr>name = ''email'', data = Object []\<rparr>, \<lparr>name = ''amount'', data = Object []\<rparr>]\<rparr>"

definition df_clean :: "int dataframe" where
  "df_clean = \<lparr>index = range_index 2, columns =
     [\<lparr>name = ''email'', data = Object [Some (Str ''a@b.com''), Some (Str ''c@d.org'')]\<rparr>,
      \<lparr>name = ''amount'', data = Numeric [Some 1, Some 2]\<rparr>]\<rparr>"

text \<open>
  Frames whose index \<open>read_csv\<close> took from the first field of each row. The file
  \<^verbatim>\<open>a\<close> / \<^verbatim>\<open>20,\<close> / \<^verbatim>\<open>10,\<close> / \<^verbatim>\<open>30,1\<close> (a header of one field, rows of two) gives the
  labels 20, 10, 30 and the column \<open>a\<close> with two absent cells.
\<close>

definition labelled_column :: series where
  "labelled_column = \<lparr>name = ''a'', data = Numeric [None, None, Some 1]\<rparr>"

definition df_labelled :: "int dataframe" where
  "df_labelled = \<lparr>index = [20, 10, 30], columns = [labelled_column]\<rparr>"

text \<open>
  Twenty-two rows labelled 21 down to 0: the header \<^verbatim>\<open>amount\<close>, then \<^verbatim>\<open>21,200\<close>,
  \<^verbatim>\<open>20,100\<close>, \<^verbatim>\<open>19,1\<close>, \<^verbatim>\<open>18,2\<close> and so on.
\<close>

definition descending_values :: "rat option list" where
  "descending_values =
     [Some 200, Some 100, Some 1, Some 2, Some 1, Some 2, Some 1, Some 2, Some 1, Some 2, Some 1,
      Some 2, Some 1, Some 2, Some 1, Some 2, Some 1, Some 2, Some 1, Some 2, Some 1, Some 2]"

definition df_descending :: "int dataframe" where
  "df_descending = \<lparr>index =
       [21, 20, 19, 18, 17, 16, 15, 14, 13, 12, 11, 10, 9, 8, 7, 6, 5, 4, 3, 2, 1, 0],
     columns = [\<lparr>name = ''amount'', data = Numeric descending_values\<rparr>]\<rparr>"

text \<open>
  The file \<^verbatim>\<open>email\<close> / \<^verbatim>\<open>10,a@b.com\<close> / \<^verbatim>\<open>20,\<close> / \<^verbatim>\<open>30,c@d.org\<close>.
\<close>

definition email_absent_column :: series where
  "email_absent_column = \<lparr>name = ''email'', data = Object
     [Some (Str ''a@b.com''), None, Some (Str ''c@d.org'')]\<rparr>"

definition df_email_labelled :: "int dataframe" where
  "df_email_labelled = \<lparr>index = [10, 20, 30], columns = [email_absent_column]\<rparr>"

text \<open>
  A repeated label: the file \<^verbatim>\<open>a\<close> / \<^verbatim>\<open>7,100\<close> / \<^verbatim>\<open>7,1\<close> / \<^verbatim>\<open>7,2\<close> / \<^verbatim>\<open>9,3\<close>.
\<close>

definition repeated_values :: "rat option list" where
  "repeated_values = [Some 100, Some 1, Some 2, Some 3]"

definition df_repeated_labels :: "int dataframe" where
  "df_repeated_labels = \<lparr>index = [7, 7, 7, 9],
     columns = [\<lparr>name = ''a'', data = Numeric repeated_values\<rparr>]\<rparr>"

definition report_two :: "int anomaly list" where
  "report_two =
     [\<lparr>atype = ''Missing Values'', column = ''email'',
       description = ''1 (25.00%) missing values found.'',
       sample_values = [Label 1], original_indices = None\<rparr>,
      \<lparr>atype = ''Missing Values'', column = ''amount'',
       description = ''1 (25.00%) missing values found.'',
       sample_values = [Label 2], original_indices = None\<rparr>,
      \<lparr>atype = ''Outlier (Numerical)'', column = ''amount'',
       description = ''Potential outliers detected using Isolation Forest. Score below 5th percentile.'',
       sample_values = [Cell (Some (Number 100))], original_indices = Some [3]\<rparr>,
      \<lparr>atype = ''Invalid Format (Email)'', column = ''email'',
       description = ''2 rows with invalid email format found.'',
       sample_values = [Cell None, Cell (Some (Str ''x''))],
       original_indices = Some [1, 2]\<rparr>]"

text \<open>
  A stand-in for the estimator that keeps the seed contract: seeded, it is \<open>far_forest\<close>
  whatever the global generator; unseeded, its result depends on the global generator.
\<close>

definition example_estimator :: estimator where
  "example_estimator random_state g =
     (case random_state of
        Some s \<Rightarrow> far_forest
      | None \<Rightarrow> (if even g then far_forest else value_error_forest))"

text \<open>A file system with one good file and two bad ones.\<close>

definition read_csv_example :: "string \<Rightarrow> io_exn + int dataframe" where
  "read_csv_example path =
     (if path = ''data.csv'' then Inr df_two
      else if path = ''empty.csv'' then Inl EmptyDataError
      else if path = ''broken.csv'' then Inl ParserError
      else Inl FileNotFoundError)"

section \<open>How the loops accumulate the report\<close>


lemma missing_values_step_append:
  "missing_values_step df col st = st\<lparr>anomalies := anomalies st @ emitted_missing df col\<rparr>"
  by (simp add: missing_values_step_def emitted_missing_def empty_state_def Let_def)

lemma fold_missing_values_step:
  "fold (missing_values_step df) cols st =
     st\<lparr>anomalies := anomalies st @ concat (map (emitted_missing df) cols)\<rparr>"
  by (induction cols arbitrary: st) (simp_all add: missing_values_step_append)

lemma isolation_forest_block_append:
  "isolation_forest_block df f p c xs anoms =
     (case isolation_forest_block df f p c xs [] of Inl e \<Rightarrow> Inl e | Inr rs \<Rightarrow> Inr (anoms @ rs))"
  by (simp add: isolation_forest_block_def Let_def split: sum.splits)

lemma outlier_step_append:
  "outlier_step df f p cx st =
     (case outlier_step df f p cx empty_state of
        Inl e \<Rightarrow> Inl e
      | Inr st' \<Rightarrow> Inr (st\<lparr>anomalies := anomalies st @ anomalies st',
                              stdout := stdout st @ stdout st'\<rparr>))"
  unfolding outlier_step_def empty_state_def
  by (subst (1 2) isolation_forest_block_append)
     (simp split: prod.splits sum.splits exn.splits)

lemma for_each_collect:
  "(case for_each (outlier_step df f p) cxs st of Inl e \<Rightarrow> Inl e | Inr st' \<Rightarrow> Inr (anomalies st')) =
     (case collect (map (emitted_outlier df f p) cxs) of
        Inl e \<Rightarrow> Inl e
      | Inr rs \<Rightarrow> Inr (anomalies st @ rs))"
proof (induction cxs arbitrary: st)
  case Nil
  show ?case by simp
next
  case (Cons cx cxs)
  show ?case
  proof (cases "outlier_step df f p cx empty_state")
    case (Inl e)
    then show ?thesis
      using outlier_step_append [of df f p cx st] by (simp add: emitted_outlier_def)
  next
    case (Inr st')
    let ?st = "st\<lparr>anomalies := anomalies st @ anomalies st', stdout := stdout st @ stdout st'\<rparr>"
    have step: "outlier_step df f p cx st = Inr ?st"
      using outlier_step_append [of df f p cx st] Inr by simp
    show ?thesis
      using Cons.IH [of ?st] Inr step by (simp add: emitted_outlier_def split: sum.splits)
  qed
qed

lemma email_step_append:
  "email_step df st = st\<lparr>anomalies := anomalies st @ emitted_email df\<rparr>"
  by (simp add: email_step_def emitted_email_def empty_state_def Let_def split: option.splits)

lemma detect_anomalies_collect:
  "detect_anomalies f p df =
     (case collect (map (emitted_outlier df f p) (numerical_cols df)) of
        Inl e \<Rightarrow> Inl e
      | Inr outs \<Rightarrow>
          Inr (concat (map (emitted_missing df) (columns df)) @ outs @ emitted_email df))"
proof -
  let ?st1 = "fold (missing_values_step df) (columns df) \<lparr>anomalies = [], stdout = []\<rparr>"
  have a: "anomalies ?st1 = concat (map (emitted_missing df) (columns df))"
    by (simp add: fold_missing_values_step)
  show ?thesis
    using for_each_collect [of df f p "numerical_cols df" ?st1] a
    by (simp add: detect_anomalies_def detect_anomalies_body_def Let_def email_step_append
        split: sum.splits)
qed

subsection \<open>The records of each detector, written out\<close>

lemma emitted_missing_eq:
  "emitted_missing df col =
     (if list_ex isnull (cells col) then
        [\<lparr>atype = ''Missing Values'',
          column = name col,
          description = str_int (int (isnull_sum col)) @ '' ('' @
             format_2f (missing_percentage (isnull_sum col) (nrows df)) @
             ''%) missing values found.'',
          sample_values = map Label (take 3 (null_index df col)),
          original_indices = None\<rparr>]
      else [])"
  by (simp add: emitted_missing_def missing_values_step_def empty_state_def Let_def)

lemma emitted_outlier_eq:
  "emitted_outlier df forest np_percentile (c, xs) =
     (if eligible xs then
        (case forest (map snd (dropna xs)) of
           Inl (ValueError m) \<Rightarrow> Inr []
         | Inl (OtherError k m) \<Rightarrow> Inl (OtherError k m)
         | Inr scores \<Rightarrow>
             if flagged_positions np_percentile scores = [] then Inr []
             else if list_all (\<lambda>i. i < length (dropna xs)) (flagged_positions np_percentile scores)
             then Inr [\<lparr>atype = ''Outlier (Numerical)'',
                        column = c,
                        description = ''Potential outliers detected using Isolation Forest. Score below 5th percentile.'',
                        sample_values =
                          map (\<lambda>x. Cell (map_option Number x))
                            (take 3 (loc df (row_labels df (flagged_rows np_percentile scores xs)) xs)),
                        original_indices =
                          Some (take 3 (row_labels df (flagged_rows np_percentile scores xs)))\<rparr>]
             else Inl (OtherError ''IndexError'' ''positional indexers are out-of-bounds''))
      else Inr [])"
  by (simp add: emitted_outlier_def outlier_step_def isolation_forest_block_def empty_state_def
      eligible_def flagged_positions_def flagged_rows_def Let_def
      split: sum.splits exn.splits)

lemma emitted_email_eq:
  "emitted_email df =
     (case find (\<lambda>s. name s = ''email'') (columns df) of
        None \<Rightarrow> []
      | Some col \<Rightarrow>
          if invalid_email_rows col \<noteq> [] then
            [\<lparr>atype = ''Invalid Format (Email)'',
              column = ''email'',
              description = str_int (int (length (invalid_email_rows col))) @
                 '' rows with invalid email format found.'',
              sample_values = take 3 (map (\<lambda>i. Cell (cells col ! i)) (invalid_email_rows col)),
              original_indices = Some (take 3 (row_labels df (invalid_email_rows col)))\<rparr>]
          else [])"
  by (simp add: emitted_email_def email_step_def empty_state_def invalid_email_rows_def Let_def
      split: option.splits)

lemma emitted_missing_fields:
  "r \<in> set (emitted_missing df col) \<Longrightarrow> atype r = ''Missing Values'' \<and> column r = name col"
  by (auto simp: emitted_missing_eq split: if_splits)

lemma emitted_outlier_fields:
  "emitted_outlier df f p cx = Inr rs \<Longrightarrow> r \<in> set rs \<Longrightarrow>
     atype r = ''Outlier (Numerical)'' \<and> column r = fst cx"
  by (cases cx) (auto simp: emitted_outlier_eq split: if_splits sum.splits exn.splits)

lemma emitted_email_fields:
  "r \<in> set (emitted_email df) \<Longrightarrow> atype r = ''Invalid Format (Email)'' \<and> column r = ''email''"
  by (auto simp: emitted_email_eq split: option.splits if_splits)

subsection \<open>Picking one column's records out of a report\<close>

lemma collect_Inr:
  "collect rs = Inr ys \<Longrightarrow> ys = concat (map records_of rs) \<and> (\<forall>r\<in>set rs. \<exists>xs. r = Inr xs)"
  by (induction rs arbitrary: ys) (auto simp: records_of_def split: sum.splits)

lemma collect_all_Inr:
  "(\<forall>r\<in>set rs. \<exists>xs. r = Inr xs) \<Longrightarrow> collect rs = Inr (concat (map records_of rs))"
  by (induction rs) (auto simp: records_of_def)

lemma filter_concat_none:
  "(\<And>y r. y \<in> set ys \<Longrightarrow> r \<in> set (g y) \<Longrightarrow> \<not> P r) \<Longrightarrow> filter P (concat (map g ys)) = []"
  by (induction ys) (auto simp: filter_empty_conv)

lemma filter_concat_pick:
  assumes "x \<in> set xs" and "distinct (map key xs)"
    and "\<And>y r. y \<in> set xs \<Longrightarrow> r \<in> set (g y) \<Longrightarrow> P r \<longleftrightarrow> key y = key x"
  shows "filter P (concat (map g xs)) = g x"
  using assms
proof (induction xs)
  case Nil
  then show ?case by simp
next
  case (Cons y ys)
  show ?case
  proof (cases "y = x")
    case True
    have "filter P (g x) = g x"
      using Cons.prems(3) [of x] True by (simp add: filter_id_conv)
    moreover have "filter P (concat (map g ys)) = []"
    proof (rule filter_concat_none)
      fix z r assume z: "z \<in> set ys" and r: "r \<in> set (g z)"
      have "key x \<notin> set (map key ys)" using Cons.prems(2) True by simp
      moreover have "key z \<in> set (map key ys)" using z by simp
      ultimately have "key z \<noteq> key x" by metis
      then show "\<not> P r" using Cons.prems(3) [of z r] z r by simp
    qed
    ultimately show ?thesis using True by simp
  next
    case False
    then have x: "x \<in> set ys" using Cons.prems(1) by simp
    have "key y \<notin> set (map key ys)" using Cons.prems(2) by simp
    moreover have "key x \<in> set (map key ys)" using x by simp
    ultimately have "key y \<noteq> key x" by metis
    then have "filter P (g y) = []"
      using Cons.prems(3) [of y] by (simp add: filter_empty_conv)
    moreover have "filter P (concat (map g ys)) = g x"
      using Cons.IH x Cons.prems(2,3) by simp
    ultimately show ?thesis by simp
  qed
qed

lemma map_filter_numeric_names:
  "map fst (List.map_filter (\<lambda>s. case data s of Numeric xs \<Rightarrow> Some (name s, xs) | _ \<Rightarrow> None) cs) =
     map name (filter (\<lambda>s. case data s of Numeric xs \<Rightarrow> True | _ \<Rightarrow> False) cs)"
  by (induction cs) (simp_all add: List.map_filter_simps split: coldata.splits)

lemma numerical_cols_distinct:
  "distinct (map name (columns df)) \<Longrightarrow> distinct (map fst (numerical_cols df))"
  by (simp add: numerical_cols_def map_filter_numeric_names distinct_map_filter)

lemma map_filter_numeric_mem:
  "(c, xs) \<in> set (List.map_filter (\<lambda>s. case data s of Numeric xs \<Rightarrow> Some (name s, xs) | _ \<Rightarrow> None) cs)
     \<longleftrightarrow> (\<exists>s\<in>set cs. name s = c \<and> data s = Numeric xs)"
  by (induction cs) (auto simp: List.map_filter_simps split: coldata.splits)

lemma numerical_cols_mem:
  "(c, xs) \<in> set (numerical_cols df) \<longleftrightarrow> (\<exists>s\<in>set (columns df). name s = c \<and> data s = Numeric xs)"
  by (simp add: numerical_cols_def map_filter_numeric_mem)


lemma report_parts:
  assumes "detect_anomalies f p df = Inr report"
  shows "report = concat (map (emitted_missing df) (columns df)) @
           concat (map (\<lambda>cx. records_of (emitted_outlier df f p cx)) (numerical_cols df)) @
           emitted_email df"
    and "\<forall>cx\<in>set (numerical_cols df). \<exists>rs. emitted_outlier df f p cx = Inr rs"
proof -
  obtain outs where outs: "collect (map (emitted_outlier df f p) (numerical_cols df)) = Inr outs"
    and rep: "report = concat (map (emitted_missing df) (columns df)) @ outs @ emitted_email df"
    using assms by (auto simp: detect_anomalies_collect split: sum.splits)
  from collect_Inr [OF outs]
  show "report = concat (map (emitted_missing df) (columns df)) @
           concat (map (\<lambda>cx. records_of (emitted_outlier df f p cx)) (numerical_cols df)) @
           emitted_email df"
    and "\<forall>cx\<in>set (numerical_cols df). \<exists>rs. emitted_outlier df f p cx = Inr rs"
    using rep by (auto simp: comp_def)
qed

lemma records_of_outlier_fields:
  "r \<in> set (records_of (emitted_outlier df f p cx)) \<Longrightarrow>
     atype r = ''Outlier (Numerical)'' \<and> column r = fst cx"
  by (cases "emitted_outlier df f p cx") (auto simp: records_of_def dest: emitted_outlier_fields)

lemma filter_missing_report:
  assumes "detect_anomalies f p df = Inr report" and "distinct (map name (columns df))"
    and "col \<in> set (columns df)"
  shows "filter (\<lambda>r. atype r = ''Missing Values'' \<and> column r = name col) report =
           emitted_missing df col"
proof -
  let ?P = "\<lambda>r. atype r = ''Missing Values'' \<and> column r = name col"
  have 1: "filter ?P (concat (map (emitted_missing df) (columns df))) = emitted_missing df col"
    by (rule filter_concat_pick [OF assms(3,2)]) (auto dest: emitted_missing_fields)
  have 2: "filter ?P (concat (map (\<lambda>cx. records_of (emitted_outlier df f p cx)) (numerical_cols df))) = []"
    by (rule filter_concat_none) (auto dest: records_of_outlier_fields)
  have 3: "filter ?P (emitted_email df) = []"
    by (auto simp: filter_empty_conv dest: emitted_email_fields)
  show ?thesis
    using report_parts(1) [OF assms(1)] 1 2 3 by simp
qed

lemma filter_outlier_report:
  assumes "detect_anomalies f p df = Inr report" and "distinct (map name (columns df))"
    and "(c, xs) \<in> set (numerical_cols df)"
  shows "filter (\<lambda>r. atype r = ''Outlier (Numerical)'' \<and> column r = c) report =
           records_of (emitted_outlier df f p (c, xs))"
proof -
  let ?P = "\<lambda>r. atype r = ''Outlier (Numerical)'' \<and> column r = c"
  have 1: "filter ?P (concat (map (emitted_missing df) (columns df))) = []"
    by (rule filter_concat_none) (auto dest: emitted_missing_fields)
  have 2: "filter ?P (concat (map (\<lambda>cx. records_of (emitted_outlier df f p cx)) (numerical_cols df)))
             = records_of (emitted_outlier df f p (c, xs))"
    by (rule filter_concat_pick [where key = fst, OF assms(3) numerical_cols_distinct [OF assms(2)]])
       (auto dest: records_of_outlier_fields)
  have 3: "filter ?P (emitted_email df) = []"
    by (auto simp: filter_empty_conv dest: emitted_email_fields)
  show ?thesis
    using report_parts(1) [OF assms(1)] 1 2 3 by simp
qed

lemma filter_email_report:
  assumes "detect_anomalies f p df = Inr report"
  shows "filter (\<lambda>r. atype r = ''Invalid Format (Email)'') report = emitted_email df"
proof -
  let ?P = "\<lambda>r. atype r = ''Invalid Format (Email)''"
  have 1: "filter ?P (concat (map (emitted_missing df) (columns df))) = []"
    by (rule filter_concat_none) (auto dest: emitted_missing_fields)
  have 2: "filter ?P (concat (map (\<lambda>cx. records_of (emitted_outlier df f p cx)) (numerical_cols df))) = []"
    by (rule filter_concat_none) (auto dest: records_of_outlier_fields)
  have 3: "filter ?P (emitted_email df) = emitted_email df"
    by (auto simp: filter_id_conv dest: emitted_email_fields)
  show ?thesis
    using report_parts(1) [OF assms(1)] 1 2 3 by simp
qed

section \<open>The printed percentage is the exact one within rounding\<close>

lemma pow2_powi: "pow2 e = 2 powi e"
  by (simp add: pow2_def power_int_def power_one_over inverse_eq_divide)

lemma pow2_pos: "0 < pow2 e"
  by (simp add: pow2_powi)

lemma pow2_add: "pow2 (a + b) = pow2 a * pow2 b"
  by (simp add: pow2_powi power_int_add)

lemma bit_length_bounds:
  "0 < a \<Longrightarrow> 2 ^ (bit_length a - 1) \<le> a \<and> a < 2 ^ bit_length a"
proof (induction a rule: bit_length.induct)
  case (1 n)
  show ?case
  proof (cases "n div 2 = 0")
    case True
    then have "n = 1" using "1.prems" by presburger
    then show ?thesis by (simp add: bit_length.simps)
  next
    case False
    then have pos: "0 < n div 2" using "1.prems" by presburger
    have len: "bit_length n = Suc (bit_length (n div 2))"
      using "1.prems" by (subst bit_length.simps) simp
    have ih: "2 ^ (bit_length (n div 2) - 1) \<le> n div 2 \<and> n div 2 < 2 ^ bit_length (n div 2)"
      using "1.IH" "1.prems" pos by simp
    have l1: "1 \<le> bit_length (n div 2)"
      using pos by (subst bit_length.simps) simp
    then have e: "(2::int) ^ bit_length (n div 2) = 2 * 2 ^ (bit_length (n div 2) - 1)"
      by (metis Suc_diff_1 less_eq_Suc_le power_Suc zero_less_one One_nat_def)
    show ?thesis
      using ih e len by (simp; presburger)
  qed
qed

lemma round_half_even_err: "\<bar>of_int (round_half_even x) - x\<bar> \<le> 1 / 2"
proof -
  have "of_int \<lfloor>x\<rfloor> \<le> x" "x < of_int \<lfloor>x\<rfloor> + 1" by linarith+
  then show ?thesis
    by (auto simp: round_half_even_def Let_def)
qed

lemma pow2_nat: "pow2 (int n) = 2 ^ n"
  by (simp add: pow2_def)

lemma bit_length_rat:
  assumes "0 < a"
  shows "pow2 (int (bit_length a) - 1) \<le> of_int a" and "of_int a < pow2 (int (bit_length a))"
proof -
  have b: "2 ^ (bit_length a - 1) \<le> a" "a < 2 ^ bit_length a"
    using bit_length_bounds [OF assms] by simp_all
  have "1 \<le> bit_length a"
    using assms by (subst bit_length.simps) simp
  then have e1: "int (bit_length a) - 1 = int (bit_length a - 1)" by linarith
  have "pow2 (int (bit_length a) - 1) = 2 ^ (bit_length a - 1)"
    unfolding e1 by (rule pow2_nat)
  also have "\<dots> = of_int (2 ^ (bit_length a - 1))" by simp
  also have "\<dots> \<le> of_int a" using b(1) by (simp only: of_int_le_iff)
  finally show "pow2 (int (bit_length a) - 1) \<le> of_int a" .
  have "(of_int a :: rat) < of_int (2 ^ bit_length a)" using b(2) by (simp only: of_int_less_iff)
  then show "of_int a < pow2 (int (bit_length a))" by (simp add: pow2_nat)
qed

lemma ilog2_bounds:
  assumes "0 < q"
  shows "pow2 (ilog2 q) \<le> q \<and> q < pow2 (ilog2 q + 1)"
proof -
  obtain a b where ab: "quotient_of q = (a, b)" by (cases "quotient_of q")
  have bpos: "0 < b" using quotient_of_denom_pos [OF ab] .
  have q: "q = of_int a / of_int b" using quotient_of_div [OF ab] .
  have apos: "0 < a" using assms bpos q by (simp add: zero_less_divide_iff)
  define k where "k = int (bit_length a) - int (bit_length b)"
  have qb: "q * of_int b = of_int a" using q bpos by simp
  have bq: "(0::rat) < of_int b" using bpos by simp
  have up: "q < pow2 (k + 1)"
  proof -
    have h: "(k + 1) + (int (bit_length b) - 1) = int (bit_length a)" by (simp add: k_def)
    have "pow2 ((k + 1) + (int (bit_length b) - 1)) = pow2 (k + 1) * pow2 (int (bit_length b) - 1)"
      by (rule pow2_add)
    then have "pow2 (int (bit_length a)) = pow2 (k + 1) * pow2 (int (bit_length b) - 1)"
      by (simp only: h)
    also have "\<dots> \<le> pow2 (k + 1) * of_int b"
      using bit_length_rat(1) [OF bpos] pow2_pos [of "k + 1"] by simp
    finally have "q * of_int b < pow2 (k + 1) * of_int b"
      using bit_length_rat(2) [OF apos] qb by simp
    then show ?thesis using bq by simp
  qed
  have lo: "pow2 (k - 1) < q"
  proof -
    have "pow2 (k - 1) * of_int b < pow2 (k - 1) * pow2 (int (bit_length b))"
      using bit_length_rat(2) [OF bpos] pow2_pos [of "k - 1"] by simp
    also have "\<dots> = pow2 (int (bit_length a) - 1)"
    proof -
      have h: "(k - 1) + int (bit_length b) = int (bit_length a) - 1" by (simp add: k_def)
      have "pow2 (k - 1) * pow2 (int (bit_length b)) = pow2 ((k - 1) + int (bit_length b))"
        by (rule pow2_add [symmetric])
      then show ?thesis by (simp only: h)
    qed
    finally have "pow2 (k - 1) * of_int b < q * of_int b"
      using bit_length_rat(1) [OF apos] qb by simp
    then show ?thesis using bq by simp
  qed
  have il: "ilog2 q = (if pow2 k \<le> q then k else k - 1)"
    by (simp add: ilog2_def ab k_def Let_def)
  show ?thesis
    using up lo il by (cases "pow2 k \<le> q") auto
qed

lemma rnd64_err:
  assumes "0 < q"
  shows "\<bar>rnd64 q - q\<bar> \<le> q / 2 ^ 53"
proof -
  define e where "e = ilog2 q - 52"
  define m where "m = q / pow2 e"
  have pe: "0 < pow2 e" by (rule pow2_pos)
  have r: "rnd64 q = of_int (round_half_even m) * pow2 e"
    using assms by (simp add: rnd64_def e_def m_def Let_def)
  have qm: "q = m * pow2 e" using pe by (simp add: m_def)
  have "rnd64 q - q = (of_int (round_half_even m) - m) * pow2 e"
    by (subst (2) qm) (simp add: r left_diff_distrib)
  then have "\<bar>rnd64 q - q\<bar> = \<bar>of_int (round_half_even m) - m\<bar> * pow2 e"
    using pe by (simp add: abs_mult)
  also have "\<dots> \<le> 1 / 2 * pow2 e"
    using round_half_even_err [of m] pe by (simp add: mult_right_mono)
  also have "pow2 e = pow2 (ilog2 q) / 2 ^ 52"
  proof -
    have "pow2 (ilog2 q) = pow2 (e + 52)" by (simp add: e_def)
    also have "\<dots> = pow2 e * pow2 52" by (rule pow2_add)
    also have "pow2 52 = 2 ^ 52" using pow2_nat [of 52] by simp
    finally show ?thesis by simp
  qed
  also have "1 / 2 * (pow2 (ilog2 q) / 2 ^ 52) \<le> q / 2 ^ 53"
    using ilog2_bounds [OF assms] by simp
  finally show ?thesis .
qed

lemma round_half_even_nonneg: "0 \<le> x \<Longrightarrow> 0 \<le> round_half_even x"
  by (auto simp: round_half_even_def Let_def)

lemma missing_percentage_close:
  assumes "0 < n" and "n \<le> N"
  shows "\<exists>d. missing_percentage n N = Finite d \<and> 0 \<le> d \<and>
           \<bar>d - 100 * of_nat n / of_nat N\<bar> \<le> 201 / 2 ^ 53"
proof -
  define x :: rat where "x = of_nat n / of_nat N"
  define d1 where "d1 = rnd64 x"
  define d where "d = rnd64 (d1 * 100)"
  have N: "0 < N" using assms by simp
  have x0: "0 < x" using assms N by (simp add: x_def)
  have x1: "x \<le> 1" using assms N by (simp add: x_def)
  have e1: "\<bar>d1 - x\<bar> \<le> x / 2 ^ 53" unfolding d1_def by (rule rnd64_err [OF x0])
  have s: "x / 2 ^ 53 \<le> 1 / 2 ^ 53" using x1 by (simp add: divide_right_mono)
  have s': "x / 2 ^ 53 < x" using x0 by simp
  have d1pos: "0 < d1" using e1 s' by linarith
  have d1up: "d1 \<le> 1 + 1 / 2 ^ 53" using e1 s x1 by linarith
  have y0: "0 < d1 * 100" using d1pos by simp
  have e2: "\<bar>d - d1 * 100\<bar> \<le> d1 * 100 / 2 ^ 53" unfolding d_def by (rule rnd64_err [OF y0])
  have t: "d1 * 100 / 2 ^ 53 \<le> (1 + 1 / 2 ^ 53) * 100 / 2 ^ 53"
    using d1up by (simp add: divide_right_mono)
  have t': "d1 * 100 / 2 ^ 53 < d1 * 100" using d1pos by simp
  have dpos: "0 \<le> d" using e2 t' by linarith
  have "\<bar>d - 100 * x\<bar> = \<bar>(d - d1 * 100) + 100 * (d1 - x)\<bar>"
    by (simp add: algebra_simps)
  also have "\<dots> \<le> \<bar>d - d1 * 100\<bar> + \<bar>100 * (d1 - x)\<bar>"
    by (rule abs_triangle_ineq)
  also have "\<dots> = \<bar>d - d1 * 100\<bar> + 100 * \<bar>d1 - x\<bar>"
    by (simp only: abs_mult abs_numeral)
  also have "\<dots> \<le> (1 + 1 / 2 ^ 53) * 100 / 2 ^ 53 + 100 * (1 / 2 ^ 53)"
  proof -
    have A: "\<bar>d - d1 * 100\<bar> \<le> (1 + 1 / 2 ^ 53) * 100 / 2 ^ 53"
      using e2 t by (rule order_trans)
    have B: "\<bar>d1 - x\<bar> \<le> 1 / 2 ^ 53"
      using e1 s by (rule order_trans)
    show ?thesis
      by (intro add_mono mult_left_mono A B) simp
  qed
  also have "\<dots> \<le> 201 / 2 ^ 53" by simp
  finally have close: "\<bar>d - 100 * x\<bar> \<le> 201 / 2 ^ 53" .
  have "missing_percentage n N = Finite d"
    using N by (simp add: missing_percentage_def d_def d1_def x_def)
  then show ?thesis using dpos close by (auto simp: x_def)
qed

lemma format_2f_close:
  assumes "0 \<le> d"
  shows "\<exists>k. 0 \<le> k \<and> \<bar>of_int k / 100 - d\<bar> \<le> 1 / 200 \<and>
           format_2f (Finite d) =
             str_int (k div 100) @ ''.'' @
               [digit_char (nat (k div 10 mod 10)), digit_char (nat (k mod 10))]"
proof -
  define k where "k = round_half_even (d * 100)"
  have "0 \<le> k" unfolding k_def using assms by (intro round_half_even_nonneg) simp
  moreover have "\<bar>of_int k / 100 - d\<bar> \<le> 1 / 200"
    using round_half_even_err [of "d * 100"] unfolding k_def by linarith
  moreover have "format_2f (Finite d) =
             str_int (k div 100) @ ''.'' @
               [digit_char (nat (k div 10 mod 10)), digit_char (nat (k mod 10))]"
    by (simp add: format_2f_def k_def Let_def)
  ultimately show ?thesis by blast
qed

lemma percentage_text_close:
  assumes "0 < n" and "n \<le> N"
  shows "\<exists>k. 0 \<le> k \<and>
           \<bar>of_int k / 100 - 100 * of_nat n / of_nat N :: rat\<bar> \<le> 1 / 200 + 201 / 2 ^ 53 \<and>
           format_2f (missing_percentage n N) =
             str_int (k div 100) @ ''.'' @
               [digit_char (nat (k div 10 mod 10)), digit_char (nat (k mod 10))]"
proof -
  obtain d where d: "missing_percentage n N = Finite d" "0 \<le> d"
    "\<bar>d - 100 * of_nat n / of_nat N\<bar> \<le> 201 / 2 ^ 53"
    using missing_percentage_close [OF assms] by blast
  obtain k where k: "0 \<le> k" "\<bar>of_int k / 100 - d\<bar> \<le> 1 / 200"
    "format_2f (Finite d) = str_int (k div 100) @ ''.'' @
               [digit_char (nat (k div 10 mod 10)), digit_char (nat (k mod 10))]"
    using format_2f_close [OF d(2)] by blast
  have "\<bar>of_int k / 100 - 100 * of_nat n / of_nat N :: rat\<bar> \<le> 1 / 200 + 201 / 2 ^ 53"
    using d(3) k(2) by linarith
  then show ?thesis using k(1,3) d(1) by auto
qed

section \<open>Rows and their index labels\<close>

subsection \<open>Index labels\<close>

text \<open>Under the default index, or any index that is a function of the position.\<close>

lemma row_labels_positions:
  assumes "index df = map f [0..<nrows df]" and "\<forall>p\<in>set rows. p < nrows df"
  shows "row_labels df rows = map f rows"
  using assms by (simp add: row_labels_def)

subsection \<open>Present values and flagged rows\<close>

text \<open>The present values keep their row labels, in ascending order.\<close>

lemma enumerate_map_filter_mem:
  "(r, v) \<in> set (List.map_filter (\<lambda>(i, x). map_option (Pair i) x) (enumerate n xs)) \<longleftrightarrow>
     n \<le> r \<and> r < n + length xs \<and> xs ! (r - n) = Some v"
proof (induction xs arbitrary: n)
  case Nil
  show ?case by (simp add: List.map_filter_simps)
next
  case (Cons x xs)
  show ?case
  proof (cases "r = n")
    case True
    then show ?thesis
      using Cons.IH [of "Suc n"] by (cases x) (auto simp: List.map_filter_simps)
  next
    case False
    have "xs ! (r - Suc n) = (x # xs) ! (r - n)" if "n \<le> r"
    proof -
      have "r - n = Suc (r - Suc n)" using that False by linarith
      then show ?thesis by simp
    qed
    then show ?thesis
      using Cons.IH [of "Suc n"] False by (cases x) (auto simp: List.map_filter_simps)
  qed
qed

lemma enumerate_map_filter_sorted:
  "sorted_wrt (<) (map fst (List.map_filter (\<lambda>(i, x). map_option (Pair i) x) (enumerate n xs)))"
proof (induction xs arbitrary: n)
  case Nil
  show ?case by (simp add: List.map_filter_simps)
next
  case (Cons x xs)
  have "n < r" if "(r, v) \<in> set (List.map_filter (\<lambda>(i, x). map_option (Pair i) x) (enumerate (Suc n) xs))"
    for r v using that by (simp add: enumerate_map_filter_mem)
  then show ?case
    using Cons.IH [of "Suc n"] by (cases x) (auto simp: List.map_filter_simps)
qed

lemma dropna_mem: "(r, v) \<in> set (dropna xs) \<longleftrightarrow> r < length xs \<and> xs ! r = Some v"
  by (simp add: dropna_def enumerate_map_filter_mem)

lemma dropna_sorted: "sorted_wrt (<) (map fst (dropna xs))"
  by (simp add: dropna_def enumerate_map_filter_sorted)

lemma dropna_nth:
  assumes "i < length (dropna xs)"
  shows "fst (dropna xs ! i) < length xs \<and> xs ! fst (dropna xs ! i) = Some (snd (dropna xs ! i))"
proof -
  have "dropna xs ! i \<in> set (dropna xs)" using assms by simp
  then show ?thesis using dropna_mem [of "fst (dropna xs ! i)" "snd (dropna xs ! i)" xs] by simp
qed

lemma dropna_nth_mono:
  assumes "i < j" and "j < length (dropna xs)"
  shows "fst (dropna xs ! i) < fst (dropna xs ! j)"
  using sorted_wrt_nth_less [OF dropna_sorted [of xs], of i j] assms by simp

lemma flagged_positions_sorted: "sorted_wrt (<) (flagged_positions p scores)"
  by (simp add: flagged_positions_def sorted_wrt_filter)

lemma flagged_positions_set:
  "set (flagged_positions p scores) = {i. i < length scores \<and> scores ! i < p scores 5}"
  by (auto simp: flagged_positions_def)

lemma flagged_rows_sorted:
  assumes "list_all (\<lambda>i. i < length (dropna xs)) (flagged_positions p scores)"
  shows "sorted_wrt (<) (flagged_rows p scores xs)"
proof -
  have "sorted_wrt (\<lambda>i j. fst (dropna xs ! i) < fst (dropna xs ! j)) (flagged_positions p scores)"
  proof (rule sorted_wrt_mono_rel [OF _ flagged_positions_sorted])
    fix i j assume "i \<in> set (flagged_positions p scores)" "j \<in> set (flagged_positions p scores)"
      and "i < j"
    then show "fst (dropna xs ! i) < fst (dropna xs ! j)"
      using assms by (intro dropna_nth_mono) (auto simp: list_all_iff)
  qed
  then show ?thesis by (simp add: flagged_rows_def sorted_wrt_map)
qed

section \<open>Missing values (C1)\<close>

lemma isnull_sum_pos: "0 < isnull_sum col \<longleftrightarrow> list_ex isnull (cells col)"
  by (auto simp: isnull_sum_def list_ex_iff filter_empty_conv)

lemma null_rows_sorted: "sorted_wrt (<) (null_rows col)"
  by (simp add: null_rows_def sorted_wrt_filter)

lemma null_rows_set:
  "set (null_rows col) = {p. p < length (cells col) \<and> cells col ! p = None}"
  by (auto simp: null_rows_def isnull_def)

text \<open>
  C1, as stated, fails. In the frame with the labels 20, 10, 30 the cells of rows 0 and 1
  are absent; the samples of the record are the labels 20 and 10 of those rows: they are
  not the row indices 0 and 1, and they do not ascend.
\<close>

theorem missing_samples_are_labels:
  "null_rows labelled_column = [0, 1] \<and>
   detect_anomalies far_forest percentile_linear df_labelled =
     Inr [\<lparr>atype = ''Missing Values'', column = ''a'',
           description = ''2 (66.67%) missing values found.'',
           sample_values = [Label 20, Label 10], original_indices = None\<rparr>]"
  by code_simp

text \<open>
  C1, amended. For every column of a well-formed dataset: if it has absent cells, the
  report holds exactly one Missing Values record for it, whose description prints the
  absent count and the percentage of the row count with two decimals (the printed decimal
  is within half a hundredth, up to binary64 rounding, of the exact percentage), and whose
  samples are the index labels of the first three rows with an absent cell, in row order
  (stored under the key \<open>sample_values\<close>; the record has no key \<open>original_indices\<close>);
  if it has none, the report holds no such record. Under the default index the labels are
  the row positions, so the samples are the first three row indices with an absent cell,
  ascending.
\<close>

theorem missing_values_record:
  assumes "wf_df df" and "col \<in> set (columns df)"
    and "detect_anomalies forest np_percentile df = Inr report"
  shows "(0 < isnull_sum col \<longrightarrow>
           filter (\<lambda>r. atype r = ''Missing Values'' \<and> column r = name col) report =
             [\<lparr>atype = ''Missing Values'',
               column = name col,
               description = str_int (int (isnull_sum col)) @ '' ('' @
                  format_2f (missing_percentage (isnull_sum col) (nrows df)) @
                  ''%) missing values found.'',
               sample_values = map Label (take 3 (row_labels df (null_rows col))),
               original_indices = None\<rparr>] \<and>
           (\<exists>k. 0 \<le> k \<and>
              \<bar>of_int k / 100 - 100 * of_nat (isnull_sum col) / of_nat (nrows df) :: rat\<bar>
                \<le> 1 / 200 + 201 / 2 ^ 53 \<and>
              format_2f (missing_percentage (isnull_sum col) (nrows df)) =
                str_int (k div 100) @ ''.'' @
                  [digit_char (nat (k div 10 mod 10)), digit_char (nat (k mod 10))])) \<and>
         (isnull_sum col = 0 \<longrightarrow>
           filter (\<lambda>r. atype r = ''Missing Values'' \<and> column r = name col) report = []) \<and>
         sorted_wrt (<) (null_rows col) \<and>
         set (null_rows col) = {p. p < nrows df \<and> cells col ! p = None} \<and>
         (\<forall>f. index df = map f [0..<nrows df] \<longrightarrow>
            row_labels df (null_rows col) = map f (null_rows col))"
proof -
  have names: "distinct (map name (columns df))" and len: "length (cells col) = nrows df"
    using assms(1,2) by (auto simp: wf_df_def list_all_iff)
  have pick: "filter (\<lambda>r. atype r = ''Missing Values'' \<and> column r = name col) report =
                emitted_missing df col"
    by (rule filter_missing_report [OF assms(3) names assms(2)])
  have le: "isnull_sum col \<le> nrows df"
    unfolding isnull_sum_def len [symmetric] by (rule length_filter_le)
  have some: "0 < isnull_sum col \<longrightarrow>
           filter (\<lambda>r. atype r = ''Missing Values'' \<and> column r = name col) report =
             [\<lparr>atype = ''Missing Values'',
               column = name col,
               description = str_int (int (isnull_sum col)) @ '' ('' @
                  format_2f (missing_percentage (isnull_sum col) (nrows df)) @
                  ''%) missing values found.'',
               sample_values = map Label (take 3 (row_labels df (null_rows col))),
               original_indices = None\<rparr>]"
    by (simp add: pick emitted_missing_eq isnull_sum_pos null_index_def)
  have shown: "0 < isnull_sum col \<longrightarrow> (\<exists>k. 0 \<le> k \<and>
              \<bar>of_int k / 100 - 100 * of_nat (isnull_sum col) / of_nat (nrows df) :: rat\<bar>
                \<le> 1 / 200 + 201 / 2 ^ 53 \<and>
              format_2f (missing_percentage (isnull_sum col) (nrows df)) =
                str_int (k div 100) @ ''.'' @
                  [digit_char (nat (k div 10 mod 10)), digit_char (nat (k mod 10))])"
    using percentage_text_close [OF _ le] by blast
  have none: "isnull_sum col = 0 \<longrightarrow>
           filter (\<lambda>r. atype r = ''Missing Values'' \<and> column r = name col) report = []"
    using isnull_sum_pos [of col] by (simp add: pick emitted_missing_eq)
  have rows: "set (null_rows col) = {p. p < nrows df \<and> cells col ! p = None}"
    using null_rows_set [of col] by (simp only: len)
  have labels: "\<forall>f. index df = map f [0..<nrows df] \<longrightarrow>
            row_labels df (null_rows col) = map f (null_rows col)"
  proof (intro allI impI)
    fix f assume "index df = map f [0..<nrows df]"
    moreover have "\<forall>p\<in>set (null_rows col). p < nrows df" using rows by simp
    ultimately show "row_labels df (null_rows col) = map f (null_rows col)"
      by (rule row_labels_positions)
  qed
  show ?thesis
    using some shown none null_rows_sorted [of col] rows labels by blast
qed

theorem missing_values_record_witness:
  "wf_df df_missing \<and> age_column \<in> set (columns df_missing) \<and>
   detect_anomalies far_forest percentile_linear df_missing =
     Inr [\<lparr>atype = ''Missing Values'', column = ''age'',
           description = ''3 (30.00%) missing values found.'',
           sample_values = [Label 2, Label 5, Label 8], original_indices = None\<rparr>] \<and>
   isnull_sum age_column = 3 \<and> nrows df_missing = 10 \<and>
   index df_missing = map int [0..<nrows df_missing] \<and>
   null_rows age_column = [2, 5, 8] \<and>
   row_labels df_missing (null_rows age_column) = map int (null_rows age_column) \<and>
   filter (\<lambda>r. atype r = ''Missing Values'' \<and> column r = ''age'')
     [\<lparr>atype = ''Missing Values'', column = ''age'',
       description = ''3 (30.00%) missing values found.'',
       sample_values = [Label 2, Label 5, Label 8], original_indices = None\<rparr>] =
     [\<lparr>atype = ''Missing Values'', column = ''age'',
       description = ''3 (30.00%) missing values found.'',
       sample_values = map Label (take 3 (row_labels df_missing (null_rows age_column))),
       original_indices = None\<rparr>]"
proof -
  have h1: "wf_df df_missing" by code_simp
  have h2: "age_column \<in> set (columns df_missing)" by (simp add: df_missing_def)
  have h3: "detect_anomalies far_forest percentile_linear df_missing =
     Inr [\<lparr>atype = ''Missing Values'', column = ''age'',
           description = ''3 (30.00%) missing values found.'',
           sample_values = [Label 2, Label 5, Label 8], original_indices = None\<rparr>]"
    by code_simp
  have n: "isnull_sum age_column = 3" by code_simp
  have d: "str_int (int (isnull_sum age_column)) @ '' ('' @
             format_2f (missing_percentage (isnull_sum age_column) (nrows df_missing)) @
             ''%) missing values found.'' = ''3 (30.00%) missing values found.''"
    by code_simp
  have a: "name age_column = ''age''" by (simp add: age_column_def)
  have r: "nrows df_missing = 10" by code_simp
  have i: "index df_missing = map int [0..<nrows df_missing]"
    by (simp add: r) (simp add: df_missing_def range_index_def)
  have p: "null_rows age_column = [2, 5, 8]" by code_simp
  have l: "row_labels df_missing (null_rows age_column) = map int (null_rows age_column)"
    using missing_values_record [OF h1 h2 h3] i by blast
  have e: "row_labels df_missing (null_rows age_column) = [2, 5, 8]"
    by code_simp
  have f: "filter (\<lambda>r. atype r = ''Missing Values'' \<and> column r = ''age'')
     [\<lparr>atype = ''Missing Values'', column = ''age'',
       description = ''3 (30.00%) missing values found.'',
       sample_values = [Label 2, Label 5, Label 8], original_indices = None\<rparr>] =
     [\<lparr>atype = ''Missing Values'', column = ''age'',
       description = ''3 (30.00%) missing values found.'',
       sample_values = map Label (take 3 (row_labels df_missing (null_rows age_column))),
       original_indices = None\<rparr>]"
    by (simp add: e)
  show ?thesis
    using h1 h2 h3 n r i p l f by blast
qed

section \<open>Order of the report (C9)\<close>

lemma emitted_missing_length: "length (emitted_missing df col) \<le> 1"
  by (simp add: emitted_missing_eq)

lemma emitted_outlier_length: "length (records_of (emitted_outlier df f p cx)) \<le> 1"
  by (cases cx) (simp add: emitted_outlier_eq records_of_def split: sum.splits exn.splits)

lemma emitted_email_length: "length (emitted_email df) \<le> 1"
  by (simp add: emitted_email_eq split: option.splits)

text \<open>
  C9. The report is the records of the missing-value loop in column order, then those of
  the outlier loop in the order of the numerical columns (itself the column order), then
  that of the email check: each detector contributes at most one record per column, of its
  own type and named for that column, and nothing is dropped, reordered or merged, so two
  detectors may each report the same column.
\<close>

theorem report_order:
  assumes "detect_anomalies forest np_percentile df = Inr report"
  shows "report =
           concat (map (emitted_missing df) (columns df)) @
           concat (map (\<lambda>cx. records_of (emitted_outlier df forest np_percentile cx))
                     (numerical_cols df)) @
           emitted_email df \<and>
         (\<forall>col\<in>set (columns df). length (emitted_missing df col) \<le> 1 \<and>
            (\<forall>r\<in>set (emitted_missing df col).
               atype r = ''Missing Values'' \<and> column r = name col)) \<and>
         (\<forall>cx\<in>set (numerical_cols df).
            length (records_of (emitted_outlier df forest np_percentile cx)) \<le> 1 \<and>
            (\<forall>r\<in>set (records_of (emitted_outlier df forest np_percentile cx)).
               atype r = ''Outlier (Numerical)'' \<and> column r = fst cx)) \<and>
         length (emitted_email df) \<le> 1 \<and>
         (\<forall>r\<in>set (emitted_email df).
            atype r = ''Invalid Format (Email)'' \<and> column r = ''email'') \<and>
         map fst (numerical_cols df) =
           map name (filter (\<lambda>s. case data s of Numeric xs \<Rightarrow> True | _ \<Rightarrow> False) (columns df))"
proof -
  have "map fst (numerical_cols df) =
           map name (filter (\<lambda>s. case data s of Numeric xs \<Rightarrow> True | _ \<Rightarrow> False) (columns df))"
    by (simp add: numerical_cols_def map_filter_numeric_names)
  then show ?thesis
    using report_parts(1) [OF assms] emitted_missing_length emitted_outlier_length
      emitted_email_length emitted_missing_fields records_of_outlier_fields emitted_email_fields
    by blast
qed

theorem report_order_witness:
  "detect_anomalies far_forest percentile_linear df_two = Inr report_two \<and>
   report_two =
     concat (map (emitted_missing df_two) (columns df_two)) @
     concat (map (\<lambda>cx. records_of (emitted_outlier df_two far_forest percentile_linear cx))
               (numerical_cols df_two)) @
     emitted_email df_two \<and>
   map column report_two = [''email'', ''amount'', ''amount'', ''email'']"
proof -
  have h: "detect_anomalies far_forest percentile_linear df_two = Inr report_two"
    by code_simp
  have c: "map column report_two = [''email'', ''amount'', ''amount'', ''email'']"
    by (simp add: report_two_def)
  show ?thesis
    using report_order [OF h] h c by blast
qed

section \<open>Columns the outlier detector skips (C3)\<close>

lemma outlier_step_ineligible:
  "\<not> eligible xs \<Longrightarrow> outlier_step df forest np_percentile (c, xs) st = Inr st"
  by (auto simp: outlier_step_def eligible_def)

lemma emitted_outlier_ineligible:
  "\<not> eligible xs \<Longrightarrow> emitted_outlier df forest np_percentile (c, xs) = Inr []"
  by (simp add: emitted_outlier_eq)

lemma filter_outlier_not_numeric:
  assumes "detect_anomalies f p df = Inr report" and "distinct (map name (columns df))"
    and "col \<in> set (columns df)" and "\<forall>xs. data col \<noteq> Numeric xs"
  shows "filter (\<lambda>r. atype r = ''Outlier (Numerical)'' \<and> column r = name col) report = []"
proof -
  let ?P = "\<lambda>r. atype r = ''Outlier (Numerical)'' \<and> column r = name col"
  have 1: "filter ?P (concat (map (emitted_missing df) (columns df))) = []"
    by (rule filter_concat_none) (auto dest: emitted_missing_fields)
  have 2: "filter ?P (concat (map (\<lambda>cx. records_of (emitted_outlier df f p cx)) (numerical_cols df))) = []"
  proof (rule filter_concat_none)
    fix cx r assume cx: "cx \<in> set (numerical_cols df)"
      and r: "r \<in> set (records_of (emitted_outlier df f p cx))"
    obtain c xs where c: "cx = (c, xs)" by (cases cx)
    then obtain s where s: "s \<in> set (columns df)" "name s = c" "data s = Numeric xs"
      using cx by (auto simp: numerical_cols_mem)
    have "s \<noteq> col" using s(3) assms(4) by auto
    then have "name s \<noteq> name col"
      using assms(2,3) s(1) by (auto simp: distinct_map inj_on_def)
    then show "\<not> ?P r"
      using records_of_outlier_fields [OF r] c s(2) by simp
  qed
  have 3: "filter ?P (emitted_email df) = []"
    by (auto simp: filter_empty_conv dest: emitted_email_fields)
  show ?thesis
    using report_parts(1) [OF assms(1)] 1 2 3 by simp
qed

text \<open>
  C3. A column that is not numeric, or has at most one distinct present value, or fewer
  than two present values, is skipped by the outlier loop: its step leaves the state
  unchanged whatever the forest would do, the report holds no outlier record for it, and
  a dataset with no eligible column yields a report with any forest, even one that
  always raises.
\<close>

theorem ineligible_column_skipped:
  assumes "distinct (map name (columns df))" and "col \<in> set (columns df)"
    and "\<not> outlier_eligible col"
  shows "(\<forall>xs st. data col = Numeric xs \<longrightarrow>
            outlier_step df forest np_percentile (name col, xs) st = Inr st) \<and>
         (\<forall>report. detect_anomalies forest np_percentile df = Inr report \<longrightarrow>
            filter (\<lambda>r. atype r = ''Outlier (Numerical)'' \<and> column r = name col) report = []) \<and>
         ((\<forall>c\<in>set (columns df). \<not> outlier_eligible c) \<longrightarrow>
            (\<exists>report. detect_anomalies forest np_percentile df = Inr report))"
proof (intro conjI allI impI)
  fix xs st assume "data col = Numeric xs"
  then have "\<not> eligible xs" using assms(3) by (simp add: outlier_eligible_def)
  then show "outlier_step df forest np_percentile (name col, xs) st = Inr st"
    by (rule outlier_step_ineligible)
next
  fix report assume rep: "detect_anomalies forest np_percentile df = Inr report"
  show "filter (\<lambda>r. atype r = ''Outlier (Numerical)'' \<and> column r = name col) report = []"
  proof (cases "\<exists>xs. data col = Numeric xs")
    case True
    then obtain xs where xs: "data col = Numeric xs" by blast
    then have mem: "(name col, xs) \<in> set (numerical_cols df)"
      using assms(2) by (auto simp: numerical_cols_mem)
    have "\<not> eligible xs" using assms(3) xs by (simp add: outlier_eligible_def)
    then show ?thesis
      using filter_outlier_report [OF rep assms(1) mem]
      by (simp add: emitted_outlier_ineligible records_of_def)
  next
    case False
    then show ?thesis
      using filter_outlier_not_numeric [OF rep assms(1,2)] by blast
  qed
next
  assume all: "\<forall>c\<in>set (columns df). \<not> outlier_eligible c"
  have "\<forall>r\<in>set (map (emitted_outlier df forest np_percentile) (numerical_cols df)). \<exists>xs. r = Inr xs"
  proof
    fix r assume "r \<in> set (map (emitted_outlier df forest np_percentile) (numerical_cols df))"
    then obtain c xs where cx: "(c, xs) \<in> set (numerical_cols df)"
      and r: "r = emitted_outlier df forest np_percentile (c, xs)" by auto
    obtain s where "s \<in> set (columns df)" "data s = Numeric xs"
      using cx by (auto simp: numerical_cols_mem)
    then have "\<not> eligible xs" using all by (auto simp: outlier_eligible_def)
    then show "\<exists>xs. r = Inr xs" using r by (simp add: emitted_outlier_ineligible)
  qed
  then show "\<exists>report. detect_anomalies forest np_percentile df = Inr report"
    by (simp add: detect_anomalies_collect collect_all_Inr)
qed

theorem ineligible_column_skipped_witness:
  "distinct (map name (columns df_constant)) \<and> five_column \<in> set (columns df_constant) \<and>
   \<not> outlier_eligible five_column \<and>
   outlier_step df_constant memory_error_forest percentile_linear (''five'', replicate 10 (Some 5)) empty_state =
     Inr empty_state \<and>
   (\<exists>report. detect_anomalies memory_error_forest percentile_linear df_constant = Inr report)"
proof -
  have h1: "distinct (map name (columns df_constant))" by (simp add: df_constant_def)
  have h2: "five_column \<in> set (columns df_constant)" by (simp add: df_constant_def)
  have h3: "\<not> outlier_eligible five_column" by code_simp
  have d: "data five_column = Numeric (replicate 10 (Some 5))" "name five_column = ''five''"
    by (simp_all add: five_column_def)
  have all: "\<forall>c\<in>set (columns df_constant). \<not> outlier_eligible c"
    using h3 by (simp add: df_constant_def)
  show ?thesis
    using ineligible_column_skipped [OF h1 h2 h3, of memory_error_forest percentile_linear]
      h1 h2 h3 d all by auto
qed

section \<open>Determinism (C7)\<close>

lemma for_each_cong:
  "(\<And>x st. x \<in> set xs \<Longrightarrow> f x st = g x st) \<Longrightarrow> for_each f xs st = for_each g xs st"
  by (induction xs arbitrary: st) (auto split: sum.splits)

text \<open>
  With a seeded estimator that keeps the contract, the forest fitted for each column is
  one and the same function of the samples: the loop is the one with a single forest.
\<close>

lemma detect_anomalies_run_seeded:
  assumes "seed_contract sklearn"
  shows "detect_anomalies_run sklearn (Some s) np_percentile ambient df =
           detect_anomalies_body (sklearn (Some s) g) np_percentile df"
proof -
  have same: "sklearn (Some s) (ambient c) = sklearn (Some s) g" for c
    using assms by (auto simp: seed_contract_def)
  have "for_each (\<lambda>cx. outlier_step df (sklearn (Some s) (ambient (fst cx))) np_percentile cx)
          (numerical_cols df) st =
        for_each (outlier_step df (sklearn (Some s) g) np_percentile) (numerical_cols df) st" for st
    by (rule for_each_cong) (simp only: same)
  then show ?thesis
    by (simp add: detect_anomalies_run_def detect_anomalies_body_def)
qed

text \<open>
  C7. The source constructs every forest with \<open>random_state=42\<close>. With an estimator that
  keeps scikit-learn's contract for an integer seed, two runs on the same dataset end in
  the same state, the same records with the same fields in the same order and the same
  printed lines, whatever state the global generator is in at each fit of either run; the
  common result is that of the loop with the one seeded forest.
\<close>

theorem seeded_runs_agree:
  assumes "seed_contract sklearn"
  shows "detect_anomalies_seeded sklearn np_percentile ambient1 df =
           detect_anomalies_seeded sklearn np_percentile ambient2 df \<and>
         detect_anomalies_seeded sklearn np_percentile ambient1 df =
           detect_anomalies_body (sklearn (Some 42) g) np_percentile df"
  using detect_anomalies_run_seeded [OF assms, of 42 np_percentile _ df g]
  by (simp add: detect_anomalies_seeded_def)

theorem seeded_runs_agree_witness:
  "seed_contract example_estimator \<and>
   example_estimator None 0 [] \<noteq> example_estimator None 1 [] \<and>
   detect_anomalies_seeded example_estimator percentile_linear (\<lambda>c. 0) df_two =
     detect_anomalies_seeded example_estimator percentile_linear (\<lambda>c. 1) df_two"
proof -
  have h: "seed_contract example_estimator"
    by (simp add: seed_contract_def example_estimator_def)
  have d: "example_estimator None 0 [] \<noteq> example_estimator None 1 []"
    by (simp add: example_estimator_def far_forest_def value_error_forest_def)
  show ?thesis
    using seeded_runs_agree [OF h, of percentile_linear "\<lambda>c. 0" df_two "\<lambda>c. 1"] h d
    by blast
qed

text \<open>
  The seed is what the result rests on: run with \<open>random_state=None\<close>, the same loop
  with the same estimator gives different reports for different states of the global
  generator.
\<close>

lemma unseeded_runs_differ:
  "detect_anomalies_run example_estimator None percentile_linear (\<lambda>c. 0) df_two \<noteq>
   detect_anomalies_run example_estimator None percentile_linear (\<lambda>c. 1) df_two"
  by code_simp

section \<open>Outlier records (C2)\<close>

text \<open>Under distinct labels, \<open>df.loc\<close> returns the rows it is asked for.\<close>

lemma filter_upt_eq:
  "r < n \<Longrightarrow> [p \<leftarrow> [0..<n]. p = r] = [r]"
proof (induction n)
  case 0
  then show ?case by simp
next
  case (Suc n)
  show ?case
  proof (cases "r = n")
    case True
    then show ?thesis by (simp add: filter_empty_conv)
  next
    case False
    then have "r < n" using Suc.prems by simp
    then show ?thesis using Suc.IH False by simp
  qed
qed

lemma filter_same_label:
  assumes "distinct idx" and "r < length idx"
  shows "[p \<leftarrow> [0..<length idx]. idx ! p = idx ! r] = [r]"
proof -
  have "[p \<leftarrow> [0..<length idx]. idx ! p = idx ! r] = [p \<leftarrow> [0..<length idx]. p = r]"
    using assms by (intro filter_cong) (auto simp: nth_eq_iff_index_eq)
  also have "\<dots> = [r]"
    using assms(2) by (rule filter_upt_eq)
  finally show ?thesis .
qed

lemma loc_row_labels:
  assumes "distinct (index df)" and "length xs = length (index df)"
    and "\<forall>r\<in>set rows. r < length xs"
  shows "loc df (row_labels df rows) xs = map (\<lambda>r. xs ! r) rows"
  using assms(3)
proof (induction rows)
  case Nil
  show ?case by (simp add: loc_def row_labels_def)
next
  case (Cons r rows)
  have "[p \<leftarrow> [0..<length xs]. index df ! p = index df ! r] = [r]"
    using filter_same_label [OF assms(1), of r] Cons.prems assms(2) by simp
  then show ?case
    using Cons by (simp add: loc_def row_labels_def)
qed

text \<open>
  C2, as stated, fails. In the frame of 22 rows labelled 21 down to 0 the two flagged
  samples are the values 200 and 100 of rows 0 and 1. The record lists them in row order
  with the labels 21 and 20: these are not the row indices 0 and 1, and neither the values
  nor the labels are in ascending order of the labels.
\<close>

theorem outlier_samples_follow_labels:
  "take 2 descending_values = [Some 200, Some 100] \<and>
   take 2 (index df_descending) = [21, 20] \<and>
   flagged_rows percentile_linear
     (- 1 / 5 # - 1 / 5 # replicate 20 (1 / 10)) descending_values = [0, 1] \<and>
   detect_anomalies far_forest percentile_linear df_descending =
     Inr [\<lparr>atype = ''Outlier (Numerical)'', column = ''amount'',
           description = ''Potential outliers detected using Isolation Forest. Score below 5th percentile.'',
           sample_values = [Cell (Some (Number 200)), Cell (Some (Number 100))],
           original_indices = Some [21, 20]\<rparr>]"
  by code_simp

text \<open>
  C2, amended. For an eligible numerical column of a well-formed dataset whose index
  labels are distinct, and a forest that returns one score per present value: the flagged
  positions are exactly those whose score is strictly below \<open>np.percentile(scores, 5)\<close>;
  each belongs to a row of the frame that holds its value, and the flagged rows ascend in
  position; if any position is flagged the report holds exactly one outlier record for
  the column, with the values of the first three flagged rows, in row order, as
  \<open>sample_values\<close> and the index labels of those rows as \<open>original_indices\<close>; otherwise
  it holds none. Under the default index the labels are the row positions in the frame
  (not the positions among the present values), ascending.
\<close>

theorem outlier_record:
  assumes "wf_df df" and "distinct (index df)"
    and "(c, xs) \<in> set (numerical_cols df)" and "eligible xs"
    and "forest (map snd (dropna xs)) = Inr scores" and "length scores = length (dropna xs)"
    and "detect_anomalies forest np_percentile df = Inr report"
  shows "set (flagged_positions np_percentile scores) =
           {i. i < length scores \<and> scores ! i < np_percentile scores 5} \<and>
         flagged_rows np_percentile scores xs =
           map (\<lambda>i. fst (dropna xs ! i)) (flagged_positions np_percentile scores) \<and>
         (\<forall>i<length scores. fst (dropna xs ! i) < length xs \<and>
            xs ! fst (dropna xs ! i) = Some (map snd (dropna xs) ! i)) \<and>
         sorted_wrt (<) (flagged_rows np_percentile scores xs) \<and>
         (flagged_positions np_percentile scores \<noteq> [] \<longrightarrow>
            filter (\<lambda>r. atype r = ''Outlier (Numerical)'' \<and> column r = c) report =
              [\<lparr>atype = ''Outlier (Numerical)'',
                column = c,
                description = ''Potential outliers detected using Isolation Forest. Score below 5th percentile.'',
                sample_values = map (\<lambda>r. Cell (map_option Number (xs ! r)))
                                  (take 3 (flagged_rows np_percentile scores xs)),
                original_indices =
                  Some (take 3 (row_labels df (flagged_rows np_percentile scores xs)))\<rparr>]) \<and>
         (flagged_positions np_percentile scores = [] \<longrightarrow>
            filter (\<lambda>r. atype r = ''Outlier (Numerical)'' \<and> column r = c) report = []) \<and>
         (\<forall>f. index df = map f [0..<nrows df] \<longrightarrow>
            row_labels df (flagged_rows np_percentile scores xs) =
              map f (flagged_rows np_percentile scores xs))"
proof -
  have names: "distinct (map name (columns df))"
    using assms(1) by (simp add: wf_df_def)
  obtain s where s: "s \<in> set (columns df)" "data s = Numeric xs"
    using assms(3) by (auto simp: numerical_cols_mem)
  have len: "length xs = length (index df)"
    using assms(1) s by (auto simp: wf_df_def list_all_iff cells_def nrows_def)
  have inrange: "list_all (\<lambda>i. i < length (dropna xs)) (flagged_positions np_percentile scores)"
    using assms(6) by (simp add: list_all_iff flagged_positions_set)
  have rng: "\<forall>r\<in>set (flagged_rows np_percentile scores xs). r < length xs"
    using inrange dropna_nth [of _ xs] by (auto simp: flagged_rows_def list_all_iff)
  have loc: "loc df (row_labels df (flagged_rows np_percentile scores xs)) xs =
               map (\<lambda>r. xs ! r) (flagged_rows np_percentile scores xs)"
    by (rule loc_row_labels [OF assms(2) len rng])
  have pick: "filter (\<lambda>r. atype r = ''Outlier (Numerical)'' \<and> column r = c) report =
                records_of (emitted_outlier df forest np_percentile (c, xs))"
    by (rule filter_outlier_report [OF assms(7) names assms(3)])
  have some: "flagged_positions np_percentile scores \<noteq> [] \<longrightarrow>
            filter (\<lambda>r. atype r = ''Outlier (Numerical)'' \<and> column r = c) report =
              [\<lparr>atype = ''Outlier (Numerical)'',
                column = c,
                description = ''Potential outliers detected using Isolation Forest. Score below 5th percentile.'',
                sample_values = map (\<lambda>r. Cell (map_option Number (xs ! r)))
                                  (take 3 (flagged_rows np_percentile scores xs)),
                original_indices =
                  Some (take 3 (row_labels df (flagged_rows np_percentile scores xs)))\<rparr>]"
    using inrange
    by (simp add: pick emitted_outlier_eq assms(4,5) records_of_def loc take_map comp_def)
  have none: "flagged_positions np_percentile scores = [] \<longrightarrow>
            filter (\<lambda>r. atype r = ''Outlier (Numerical)'' \<and> column r = c) report = []"
    by (simp add: pick emitted_outlier_eq assms(4,5) records_of_def)
  have rows: "\<forall>i<length scores. fst (dropna xs ! i) < length xs \<and>
            xs ! fst (dropna xs ! i) = Some (map snd (dropna xs) ! i)"
    using dropna_nth [of _ xs] assms(6) by simp
  have srt: "sorted_wrt (<) (flagged_rows np_percentile scores xs)"
    by (rule flagged_rows_sorted [OF inrange])
  have labels: "\<forall>f. index df = map f [0..<nrows df] \<longrightarrow>
            row_labels df (flagged_rows np_percentile scores xs) =
              map f (flagged_rows np_percentile scores xs)"
  proof (intro allI impI)
    fix f assume "index df = map f [0..<nrows df]"
    moreover have "\<forall>p\<in>set (flagged_rows np_percentile scores xs). p < nrows df"
      using rng len by (simp add: nrows_def)
    ultimately show "row_labels df (flagged_rows np_percentile scores xs) =
              map f (flagged_rows np_percentile scores xs)"
      by (rule row_labels_positions)
  qed
  have fr: "flagged_rows np_percentile scores xs =
           map (\<lambda>i. fst (dropna xs ! i)) (flagged_positions np_percentile scores)"
    by (simp add: flagged_rows_def)
  show ?thesis
    using some none rows srt labels fr flagged_positions_set [of np_percentile scores]
    by blast
qed

theorem outlier_record_witness:
  "wf_df df_outlier \<and> distinct (index df_outlier) \<and>
   (''amount'', amount_values) \<in> set (numerical_cols df_outlier) \<and>
   eligible amount_values \<and>
   far_forest (map snd (dropna amount_values)) =
     Inr [1 / 10, 1 / 10, 1 / 10, 1 / 10, 1 / 10, 1 / 10, 1 / 10, 1 / 10, 1 / 10, - 1 / 5] \<and>
   detect_anomalies far_forest percentile_linear df_outlier =
     Inr [\<lparr>atype = ''Outlier (Numerical)'', column = ''amount'',
           description = ''Potential outliers detected using Isolation Forest. Score below 5th percentile.'',
           sample_values = [Cell (Some (Number 100))], original_indices = Some [9]\<rparr>] \<and>
   flagged_rows percentile_linear
     [1 / 10, 1 / 10, 1 / 10, 1 / 10, 1 / 10, 1 / 10, 1 / 10, 1 / 10, 1 / 10, - 1 / 5]
     amount_values = [9] \<and>
   amount_values ! 9 = Some 100 \<and>
   index df_outlier = map int [0..<nrows df_outlier] \<and>
   row_labels df_outlier
     (flagged_rows percentile_linear
        [1 / 10, 1 / 10, 1 / 10, 1 / 10, 1 / 10, 1 / 10, 1 / 10, 1 / 10, 1 / 10, - 1 / 5]
        amount_values) =
     map int
       (flagged_rows percentile_linear
          [1 / 10, 1 / 10, 1 / 10, 1 / 10, 1 / 10, 1 / 10, 1 / 10, 1 / 10, 1 / 10, - 1 / 5]
          amount_values)"
proof -
  let ?scores = "[1 / 10, 1 / 10, 1 / 10, 1 / 10, 1 / 10, 1 / 10, 1 / 10, 1 / 10, 1 / 10, - 1 / 5] :: rat list"
  have h0: "wf_df df_outlier" by code_simp
  have h1: "distinct (index df_outlier)" by code_simp
  have h2: "(''amount'', amount_values) \<in> set (numerical_cols df_outlier)" by code_simp
  have h3: "eligible amount_values" by code_simp
  have h4: "far_forest (map snd (dropna amount_values)) = Inr ?scores" by code_simp
  have h5: "length ?scores = length (dropna amount_values)" by code_simp
  have h6: "detect_anomalies far_forest percentile_linear df_outlier =
     Inr [\<lparr>atype = ''Outlier (Numerical)'', column = ''amount'',
           description = ''Potential outliers detected using Isolation Forest. Score below 5th percentile.'',
           sample_values = [Cell (Some (Number 100))], original_indices = Some [9]\<rparr>]"
    by code_simp
  have r: "flagged_rows percentile_linear ?scores amount_values = [9]" by code_simp
  have v: "amount_values ! 9 = Some 100" by (simp add: amount_values_def)
  have i: "index df_outlier = map int [0..<nrows df_outlier]" by code_simp
  have l: "row_labels df_outlier (flagged_rows percentile_linear ?scores amount_values) =
     map int (flagged_rows percentile_linear ?scores amount_values)"
    using outlier_record [OF h0 h1 h2 h3 h4 h5 h6] i by blast
  show ?thesis
    using h0 h1 h2 h3 h4 h6 r v i l by blast
qed

text \<open>
  With absent cells before the outlier, its position among the present values (2) and
  its row in the frame (4) differ, and the record carries the label of the row.
\<close>

lemma outlier_rows_skip_absent_cells:
  "detect_anomalies far_forest percentile_linear df_gap =
     Inr [\<lparr>atype = ''Missing Values'', column = ''amount'',
           description = ''2 (40.00%) missing values found.'',
           sample_values = [Label 1, Label 3], original_indices = None\<rparr>,
          \<lparr>atype = ''Outlier (Numerical)'', column = ''amount'',
           description = ''Potential outliers detected using Isolation Forest. Score below 5th percentile.'',
           sample_values = [Cell (Some (Number 100))], original_indices = Some [4]\<rparr>] \<and>
   flagged_positions percentile_linear [1 / 10, 1 / 10, - 1 / 5] = [2]"
  by code_simp

section \<open>Email format records (C4)\<close>

text \<open>The matcher decides the pattern.\<close>

lemma at_not_local: "\<not> local_char (CHR ''@'')"
  by (simp add: local_char_def is_alpha_def is_digit_def)

lemma dot_not_alpha: "\<not> is_alpha (CHR ''.'')"
  by (simp add: is_alpha_def)

lemma takeWhile_stop:
  assumes "\<forall>x\<in>set xs. P x" and "\<not> P y"
  shows "takeWhile P (xs @ y # ys) = xs"
  using assms by (induction xs) auto

lemma takeWhile_short:
  assumes "length (takeWhile P xs) < length xs"
  shows "\<exists>ys. xs = takeWhile P xs @ hd (dropWhile P xs) # ys \<and> \<not> P (hd (dropWhile P xs))"
proof -
  have ne: "dropWhile P xs \<noteq> []"
    using assms by (metis append_Nil2 less_irrefl takeWhile_dropWhile_id)
  then have "\<not> P (hd (dropWhile P xs))" by (rule hd_dropWhile)
  moreover have "xs = takeWhile P xs @ hd (dropWhile P xs) # tl (dropWhile P xs)"
    using ne by simp
  ultimately show ?thesis by blast
qed

lemma email_fullmatch_pattern: "email_fullmatch s \<longleftrightarrow> email_pattern s"
proof
  assume m: "email_fullmatch s"
  define l where "l = takeWhile (\<lambda>c. c \<noteq> CHR ''@'') s"
  define rest where "rest = drop (Suc (length l)) s"
  define t where "t = rev (takeWhile (\<lambda>c. c \<noteq> CHR ''.'') (rev rest))"
  define d where "d = take (length rest - Suc (length t)) rest"
  have "length l < length s \<and> l \<noteq> [] \<and> list_all local_char l \<and> length t < length rest \<and>
    d \<noteq> [] \<and> list_all domain_char d \<and> 2 \<le> length t \<and> list_all is_alpha t"
    using m unfolding email_fullmatch_def Let_def l_def rest_def t_def d_def by blast
  then have c: "length l < length s" "l \<noteq> []" "list_all local_char l" "length t < length rest"
    "d \<noteq> []" "list_all domain_char d" "2 \<le> length t" "list_all is_alpha t"
    by blast+
  obtain ys where ys: "s = l @ hd (dropWhile (\<lambda>c. c \<noteq> CHR ''@'') s) # ys"
    and at: "\<not> hd (dropWhile (\<lambda>c. c \<noteq> CHR ''@'') s) \<noteq> CHR ''@''"
    using takeWhile_short [of "\<lambda>c. c \<noteq> CHR ''@''" s] c(1) unfolding l_def by blast
  have s1: "s = l @ ''@'' @ rest"
  proof -
    have "rest = ys" unfolding rest_def by (subst ys) simp
    then show ?thesis using ys at by simp
  qed
  have lt: "length (takeWhile (\<lambda>c. c \<noteq> CHR ''.'') (rev rest)) < length (rev rest)"
    using c(4) by (simp add: t_def)
  obtain zs where zs: "rev rest = rev t @ hd (dropWhile (\<lambda>c. c \<noteq> CHR ''.'') (rev rest)) # zs"
    and dot: "\<not> hd (dropWhile (\<lambda>c. c \<noteq> CHR ''.'') (rev rest)) \<noteq> CHR ''.''"
    using takeWhile_short [OF lt] by (auto simp: t_def)
  have "rev (rev rest) = rev (rev t @ CHR ''.'' # zs)" using zs dot by simp
  then have r1: "rest = rev zs @ ''.'' @ t" by simp
  have "d = rev zs" unfolding d_def by (subst (1 2) r1) simp
  then have "s = l @ ''@'' @ d @ ''.'' @ t" using s1 r1 by simp
  then show "email_pattern s"
    unfolding email_pattern_def using c by blast
next
  assume "email_pattern s"
  then obtain l d t where s: "s = l @ ''@'' @ d @ ''.'' @ t"
    and c: "l \<noteq> []" "list_all local_char l" "d \<noteq> []" "list_all domain_char d"
      "2 \<le> length t" "list_all is_alpha t"
    unfolding email_pattern_def by blast
  have "\<forall>x\<in>set l. x \<noteq> CHR ''@''"
    using c(2) at_not_local by (auto simp: list_all_iff)
  then have l: "takeWhile (\<lambda>c. c \<noteq> CHR ''@'') s = l"
    unfolding s by (simp add: takeWhile_stop)
  have rest: "drop (Suc (length l)) s = d @ ''.'' @ t" unfolding s by simp
  have "\<forall>x\<in>set (rev t). x \<noteq> CHR ''.''"
    using c(6) dot_not_alpha by (auto simp: list_all_iff)
  then have "takeWhile (\<lambda>c. c \<noteq> CHR ''.'') (rev t @ CHR ''.'' # rev d) = rev t"
    by (rule takeWhile_stop) simp
  then have t: "rev (takeWhile (\<lambda>c. c \<noteq> CHR ''.'') (rev (d @ ''.'' @ t))) = t"
    by simp
  show "email_fullmatch s"
    unfolding email_fullmatch_def Let_def l rest t using c by (simp add: s)
qed

lemma invalid_email_rows_sorted: "sorted_wrt (<) (invalid_email_rows col)"
  by (simp add: invalid_email_rows_def sorted_wrt_filter)

lemma str_contains_email_iff:
  "str_contains_email c \<longleftrightarrow> (\<exists>s. c = Some (Str s) \<and> email_search s)"
proof (cases c)
  case None
  then show ?thesis by (simp add: str_contains_email_def)
next
  case (Some v)
  then show ?thesis by (cases v) (simp_all add: str_contains_email_def)
qed

lemma invalid_email_rows_set:
  "set (invalid_email_rows col) =
     {i. i < length (cells col) \<and> \<not> (\<exists>s. cells col ! i = Some (Str s) \<and> email_search s)}"
  by (auto simp: invalid_email_rows_def str_contains_email_iff)

lemma invalid_email_rows_split:
  "set (invalid_email_rows col) = set (present_failing_rows col) \<union> set (null_rows col)"
  by (auto simp: invalid_email_rows_def present_failing_rows_def null_rows_def isnull_def
      str_contains_email_def)

text \<open>
  C4, as stated, fails. In an \<open>email\<close> column holding two well-formed addresses and one
  absent cell, in the frame with the labels 10, 20, 30, no present value fails the
  pattern, yet the check collects the absent cell of row 1: \<open>astype(str)\<close> renders it as
  \<open>nan\<close>, which does not match, and the record counts it and shows it as a sample. Its
  \<open>original_indices\<close> entry is the label 20 of that row, not the row index 1.
\<close>

theorem email_absent_cell_collected:
  "present_failing_rows email_absent_column = [] \<and>
   invalid_email_rows email_absent_column = [1] \<and>
   cells email_absent_column ! 1 = None \<and>
   detect_anomalies far_forest percentile_linear df_email_labelled =
     Inr [\<lparr>atype = ''Missing Values'', column = ''email'',
           description = ''1 (33.33%) missing values found.'',
           sample_values = [Label 20], original_indices = None\<rparr>,
          \<lparr>atype = ''Invalid Format (Email)'', column = ''email'',
           description = ''1 rows with invalid email format found.'',
           sample_values = [Cell None], original_indices = Some [20]\<rparr>]"
  by code_simp

text \<open>
  C4, amended. For the column named \<open>email\<close> of a well-formed dataset, the rows
  collected are those whose cell is not a text matching the pattern: the present values
  that fail it together with every absent cell, in ascending row position. If any row is
  collected the report holds exactly one Invalid Format record, whose description gives
  the number of collected rows, whose \<open>sample_values\<close> are the raw cells of the first
  three of them, in row order, and whose \<open>original_indices\<close> are the index labels of
  those rows; otherwise it holds none. Under the default index the labels are the row
  positions.
\<close>

theorem email_record:
  assumes "wf_df df"
    and "find (\<lambda>s. name s = ''email'') (columns df) = Some col"
    and "detect_anomalies forest np_percentile df = Inr report"
  shows "set (invalid_email_rows col) =
           {i. i < length (cells col) \<and>
               \<not> (\<exists>s. cells col ! i = Some (Str s) \<and> email_search s)} \<and>
         set (invalid_email_rows col) = set (present_failing_rows col) \<union> set (null_rows col) \<and>
         sorted_wrt (<) (invalid_email_rows col) \<and>
         (invalid_email_rows col \<noteq> [] \<longrightarrow>
            filter (\<lambda>r. atype r = ''Invalid Format (Email)'') report =
              [\<lparr>atype = ''Invalid Format (Email)'',
                column = ''email'',
                description = str_int (int (length (invalid_email_rows col))) @
                   '' rows with invalid email format found.'',
                sample_values = map (\<lambda>i. Cell (cells col ! i)) (take 3 (invalid_email_rows col)),
                original_indices = Some (take 3 (row_labels df (invalid_email_rows col)))\<rparr>]) \<and>
         (invalid_email_rows col = [] \<longrightarrow>
            filter (\<lambda>r. atype r = ''Invalid Format (Email)'') report = []) \<and>
         (\<forall>f. index df = map f [0..<nrows df] \<longrightarrow>
            row_labels df (invalid_email_rows col) = map f (invalid_email_rows col))"
proof -
  have pick: "filter (\<lambda>r. atype r = ''Invalid Format (Email)'') report = emitted_email df"
    by (rule filter_email_report [OF assms(3)])
  have some: "invalid_email_rows col \<noteq> [] \<longrightarrow>
            filter (\<lambda>r. atype r = ''Invalid Format (Email)'') report =
              [\<lparr>atype = ''Invalid Format (Email)'',
                column = ''email'',
                description = str_int (int (length (invalid_email_rows col))) @
                   '' rows with invalid email format found.'',
                sample_values = map (\<lambda>i. Cell (cells col ! i)) (take 3 (invalid_email_rows col)),
                original_indices = Some (take 3 (row_labels df (invalid_email_rows col)))\<rparr>]"
    by (simp add: pick emitted_email_eq assms(2) take_map)
  have none: "invalid_email_rows col = [] \<longrightarrow>
            filter (\<lambda>r. atype r = ''Invalid Format (Email)'') report = []"
    by (simp add: pick emitted_email_eq assms(2))
  have mem: "col \<in> set (columns df)"
    using assms(2) by (auto simp: find_Some_iff in_set_conv_nth)
  have len: "length (cells col) = nrows df"
    using assms(1) mem by (auto simp: wf_df_def list_all_iff)
  have labels: "\<forall>f. index df = map f [0..<nrows df] \<longrightarrow>
            row_labels df (invalid_email_rows col) = map f (invalid_email_rows col)"
  proof (intro allI impI)
    fix f assume "index df = map f [0..<nrows df]"
    moreover have "\<forall>p\<in>set (invalid_email_rows col). p < nrows df"
      using len by (simp add: invalid_email_rows_set)
    ultimately show "row_labels df (invalid_email_rows col) = map f (invalid_email_rows col)"
      by (rule row_labels_positions)
  qed
  show ?thesis
    using some none labels invalid_email_rows_set [of col] invalid_email_rows_split [of col]
      invalid_email_rows_sorted [of col]
    by blast
qed

theorem email_record_witness:
  "wf_df df_email \<and>
   find (\<lambda>s. name s = ''email'') (columns df_email) = Some email_column \<and>
   detect_anomalies far_forest percentile_linear df_email =
     Inr [\<lparr>atype = ''Invalid Format (Email)'', column = ''email'',
           description = ''1 rows with invalid email format found.'',
           sample_values = [Cell (Some (Str ''not-an-email''))],
           original_indices = Some [1]\<rparr>] \<and>
   invalid_email_rows email_column = [1] \<and>
   filter (\<lambda>r. atype r = ''Invalid Format (Email)'')
     [\<lparr>atype = ''Invalid Format (Email)'', column = ''email'',
           description = ''1 rows with invalid email format found.'',
           sample_values = [Cell (Some (Str ''not-an-email''))],
           original_indices = Some [1]\<rparr>] =
     [\<lparr>atype = ''Invalid Format (Email)'', column = ''email'',
       description = str_int (int (length (invalid_email_rows email_column))) @
          '' rows with invalid email format found.'',
       sample_values = map (\<lambda>i. Cell (cells email_column ! i))
                         (take 3 (invalid_email_rows email_column)),
       original_indices = Some (take 3 (row_labels df_email (invalid_email_rows email_column)))\<rparr>] \<and>
   index df_email = map int [0..<nrows df_email] \<and>
   row_labels df_email (invalid_email_rows email_column) =
     map int (invalid_email_rows email_column)"
proof -
  have h0: "wf_df df_email" by code_simp
  have h1: "find (\<lambda>s. name s = ''email'') (columns df_email) = Some email_column"
    by code_simp
  have h2: "detect_anomalies far_forest percentile_linear df_email =
     Inr [\<lparr>atype = ''Invalid Format (Email)'', column = ''email'',
           description = ''1 rows with invalid email format found.'',
           sample_values = [Cell (Some (Str ''not-an-email''))],
           original_indices = Some [1]\<rparr>]"
    by code_simp
  have r: "invalid_email_rows email_column = [1]" by code_simp
  have i: "index df_email = map int [0..<nrows df_email]" by code_simp
  have ne: "invalid_email_rows email_column \<noteq> []" by (simp add: r)
  have f: "filter (\<lambda>r. atype r = ''Invalid Format (Email)'')
     [\<lparr>atype = ''Invalid Format (Email)'', column = ''email'',
           description = ''1 rows with invalid email format found.'',
           sample_values = [Cell (Some (Str ''not-an-email''))],
           original_indices = Some [1]\<rparr>] =
     [\<lparr>atype = ''Invalid Format (Email)'', column = ''email'',
       description = str_int (int (length (invalid_email_rows email_column))) @
          '' rows with invalid email format found.'',
       sample_values = map (\<lambda>i. Cell (cells email_column ! i))
                         (take 3 (invalid_email_rows email_column)),
       original_indices = Some (take 3 (row_labels df_email (invalid_email_rows email_column)))\<rparr>]"
    using email_record [OF h0 h1 h2] ne by blast
  have l: "row_labels df_email (invalid_email_rows email_column) =
     map int (invalid_email_rows email_column)"
    using email_record [OF h0 h1 h2] i by blast
  show ?thesis
    using h0 h1 h2 r i f l by blast
qed

section \<open>Failures of the forest (C5)\<close>

lemma outlier_step_value_error:
  assumes "eligible xs" and "forest (map snd (dropna xs)) = Inl (ValueError m)"
  shows "outlier_step df forest np_percentile (c, xs) st =
           Inr (st\<lparr>stdout := stdout st @ [''Could not run IsolationForest on '' @ c @ '': '' @ m]\<rparr>)"
  using assms by (simp add: outlier_step_def isolation_forest_block_def eligible_def)

lemma emitted_outlier_sklearn_like:
  assumes "sklearn_like forest"
  shows "\<exists>rs. emitted_outlier df forest np_percentile cx = Inr rs"
proof -
  obtain c xs where cx: "cx = (c, xs)" by (cases cx)
  show ?thesis
  proof (cases "forest (map snd (dropna xs))")
    case (Inl e)
    then obtain m where "e = ValueError m"
      using assms by (cases e) (auto simp: sklearn_like_def dest: spec [of _ "map snd (dropna xs)"])
    then show ?thesis using Inl by (simp add: cx emitted_outlier_eq)
  next
    case (Inr scores)
    then have "length scores = length (dropna xs)"
      using assms by (auto simp: sklearn_like_def dest: spec [of _ "map snd (dropna xs)"])
    then have "list_all (\<lambda>i. i < length (dropna xs)) (flagged_positions np_percentile scores)"
      by (simp add: list_all_iff flagged_positions_set)
    then show ?thesis using Inr by (simp add: cx emitted_outlier_eq)
  qed
qed

lemma for_each_outlier_stdout:
  assumes "for_each (outlier_step df f p) cxs st = Inr st'"
  shows "set (stdout st) \<subseteq> set (stdout st') \<and>
         (\<forall>cx\<in>set cxs. \<forall>s1. outlier_step df f p cx empty_state = Inr s1 \<longrightarrow>
            set (stdout s1) \<subseteq> set (stdout st'))"
  using assms
proof (induction cxs arbitrary: st)
  case Nil
  then show ?case by simp
next
  case (Cons cx cxs)
  from Cons.prems obtain st1 where st1: "outlier_step df f p cx st = Inr st1"
    and rest: "for_each (outlier_step df f p) cxs st1 = Inr st'"
    by (auto split: sum.splits)
  from st1 obtain s0 where s0: "outlier_step df f p cx empty_state = Inr s0"
    and st1_eq: "st1 = st\<lparr>anomalies := anomalies st @ anomalies s0, stdout := stdout st @ stdout s0\<rparr>"
    using outlier_step_append [of df f p cx st] by (auto split: sum.splits)
  have ih: "set (stdout st1) \<subseteq> set (stdout st') \<and>
         (\<forall>cx\<in>set cxs. \<forall>s1. outlier_step df f p cx empty_state = Inr s1 \<longrightarrow>
            set (stdout s1) \<subseteq> set (stdout st'))"
    by (rule Cons.IH [OF rest])
  have "set (stdout st) \<subseteq> set (stdout st1)" "set (stdout s0) \<subseteq> set (stdout st1)"
    by (simp_all add: st1_eq)
  then show ?case using ih s0 by auto
qed

text \<open>
  C5, as stated, fails. The handler names ValueError only: a forest that raises any other
  exception while fitting one column ends the whole call with that exception, and no
  report is returned.
\<close>

theorem non_value_error_aborts:
  "detect_anomalies memory_error_forest percentile_linear df_two =
     Inl (OtherError ''MemoryError'' ''out of memory'')"
  by code_simp

text \<open>
  C5, amended. A ValueError raised by the forest on one column is caught: the step prints
  one line and leaves the report as it was, so that column contributes no outlier record.
  With a forest that raises nothing but ValueError (and returns one score per sample),
  every call returns a report, made of the records of all columns and all three checks.
\<close>

theorem value_error_skipped:
  assumes "sklearn_like forest"
  shows "(\<forall>c xs st m. eligible xs \<and> forest (map snd (dropna xs)) = Inl (ValueError m) \<longrightarrow>
            outlier_step df forest np_percentile (c, xs) st =
              Inr (st\<lparr>stdout := stdout st @
                     [''Could not run IsolationForest on '' @ c @ '': '' @ m]\<rparr>)) \<and>
         (\<exists>st. detect_anomalies_body forest np_percentile df = Inr st \<and>
            detect_anomalies forest np_percentile df = Inr (anomalies st) \<and>
            anomalies st =
              concat (map (emitted_missing df) (columns df)) @
              concat (map (\<lambda>cx. records_of (emitted_outlier df forest np_percentile cx))
                        (numerical_cols df)) @
              emitted_email df \<and>
            (\<forall>(c, xs)\<in>set (numerical_cols df). \<forall>m.
               eligible xs \<and> forest (map snd (dropna xs)) = Inl (ValueError m) \<longrightarrow>
               records_of (emitted_outlier df forest np_percentile (c, xs)) = [] \<and>
               (''Could not run IsolationForest on '' @ c @ '': '' @ m) \<in> set (stdout st)))"
proof (intro conjI)
  show "\<forall>c xs st m. eligible xs \<and> forest (map snd (dropna xs)) = Inl (ValueError m) \<longrightarrow>
            outlier_step df forest np_percentile (c, xs) st =
              Inr (st\<lparr>stdout := stdout st @
                     [''Could not run IsolationForest on '' @ c @ '': '' @ m]\<rparr>)"
    by (intro allI impI, elim conjE) (rule outlier_step_value_error)
next
  have all: "\<forall>r\<in>set (map (emitted_outlier df forest np_percentile) (numerical_cols df)). \<exists>xs. r = Inr xs"
    using emitted_outlier_sklearn_like [OF assms] by auto
  then obtain report where rep: "detect_anomalies forest np_percentile df = Inr report"
    by (simp add: detect_anomalies_collect collect_all_Inr)
  then obtain st where body: "detect_anomalies_body forest np_percentile df = Inr st"
    and st: "report = anomalies st"
    by (auto simp: detect_anomalies_def split: sum.splits)
  let ?st1 = "fold (missing_values_step df) (columns df) \<lparr>anomalies = [], stdout = []\<rparr>"
  obtain st2 where loop: "for_each (outlier_step df forest np_percentile) (numerical_cols df) ?st1 = Inr st2"
    and fin: "st = email_step df st2"
    using body by (auto simp: detect_anomalies_body_def Let_def split: sum.splits)
  have out: "stdout st = stdout st2" by (simp add: fin email_step_append)
  have printed: "records_of (emitted_outlier df forest np_percentile (c, xs)) = [] \<and>
      (''Could not run IsolationForest on '' @ c @ '': '' @ m) \<in> set (stdout st)"
    if "(c, xs) \<in> set (numerical_cols df)" "eligible xs"
      "forest (map snd (dropna xs)) = Inl (ValueError m)" for c xs m
  proof -
    have s1: "outlier_step df forest np_percentile (c, xs) empty_state =
      Inr (empty_state\<lparr>stdout := [''Could not run IsolationForest on '' @ c @ '': '' @ m]\<rparr>)"
      using outlier_step_value_error [where df = df and forest = forest and xs = xs and m = m
          and st = empty_state and c = c and np_percentile = np_percentile, OF that(2,3)]
      by (simp add: empty_state_def)
    have "\<forall>s1. outlier_step df forest np_percentile (c, xs) empty_state = Inr s1 \<longrightarrow>
            set (stdout s1) \<subseteq> set (stdout st2)"
      using for_each_outlier_stdout [OF loop] that(1) by blast
    then have "(''Could not run IsolationForest on '' @ c @ '': '' @ m) \<in> set (stdout st)"
      by (simp add: s1 out)
    moreover have "records_of (emitted_outlier df forest np_percentile (c, xs)) = []"
      using that(2,3) by (simp add: emitted_outlier_eq records_of_def)
    ultimately show ?thesis by simp
  qed
  show "\<exists>st. detect_anomalies_body forest np_percentile df = Inr st \<and>
            detect_anomalies forest np_percentile df = Inr (anomalies st) \<and>
            anomalies st =
              concat (map (emitted_missing df) (columns df)) @
              concat (map (\<lambda>cx. records_of (emitted_outlier df forest np_percentile cx))
                        (numerical_cols df)) @
              emitted_email df \<and>
            (\<forall>(c, xs)\<in>set (numerical_cols df). \<forall>m.
               eligible xs \<and> forest (map snd (dropna xs)) = Inl (ValueError m) \<longrightarrow>
               records_of (emitted_outlier df forest np_percentile (c, xs)) = [] \<and>
               (''Could not run IsolationForest on '' @ c @ '': '' @ m) \<in> set (stdout st))"
    using body rep st report_parts(1) [OF rep] printed by (intro exI [of _ st]) auto
qed

theorem value_error_skipped_witness:
  "sklearn_like value_error_forest \<and>
   detect_anomalies_body value_error_forest percentile_linear df_two =
     Inr \<lparr>anomalies =
            [\<lparr>atype = ''Missing Values'', column = ''email'',
              description = ''1 (25.00%) missing values found.'',
              sample_values = [Label 1], original_indices = None\<rparr>,
             \<lparr>atype = ''Missing Values'', column = ''amount'',
              description = ''1 (25.00%) missing values found.'',
              sample_values = [Label 2], original_indices = None\<rparr>,
             \<lparr>atype = ''Invalid Format (Email)'', column = ''email'',
              description = ''2 rows with invalid email format found.'',
              sample_values = [Cell None, Cell (Some (Str ''x''))],
              original_indices = Some [1, 2]\<rparr>],
          stdout = [''Could not run IsolationForest on amount: Input contains infinity'']\<rparr> \<and>
   (\<exists>st. detect_anomalies_body value_error_forest percentile_linear df_two = Inr st \<and>
      detect_anomalies value_error_forest percentile_linear df_two = Inr (anomalies st))"
proof -
  have h: "sklearn_like value_error_forest"
    by (simp add: sklearn_like_def value_error_forest_def)
  have e: "detect_anomalies_body value_error_forest percentile_linear df_two =
     Inr \<lparr>anomalies =
            [\<lparr>atype = ''Missing Values'', column = ''email'',
              description = ''1 (25.00%) missing values found.'',
              sample_values = [Label 1], original_indices = None\<rparr>,
             \<lparr>atype = ''Missing Values'', column = ''amount'',
              description = ''1 (25.00%) missing values found.'',
              sample_values = [Label 2], original_indices = None\<rparr>,
             \<lparr>atype = ''Invalid Format (Email)'', column = ''email'',
              description = ''2 rows with invalid email format found.'',
              sample_values = [Cell None, Cell (Some (Str ''x''))],
              original_indices = Some [1, 2]\<rparr>],
          stdout = [''Could not run IsolationForest on amount: Input contains infinity'']\<rparr>"
    by code_simp
  show ?thesis
    using value_error_skipped [OF h, where np_percentile = percentile_linear and df = df_two] h e by blast
qed

section \<open>Well-formed records (C8)\<close>

text \<open>
  What holds of every record whatever the index: it names a column of the dataset, and
  neither \<open>sample_values\<close> nor \<open>original_indices\<close> has more than three entries.
\<close>

lemma records_name_columns:
  assumes "detect_anomalies forest np_percentile df = Inr report" and "r \<in> set report"
  shows "(\<exists>col\<in>set (columns df). name col = column r) \<and> length (sample_values r) \<le> 3 \<and>
         (\<forall>picked. original_indices r = Some picked \<longrightarrow> length picked \<le> 3)"
proof -
  have parts: "r \<in> set (concat (map (emitted_missing df) (columns df))) \<or>
      r \<in> set (concat (map (\<lambda>cx. records_of (emitted_outlier df forest np_percentile cx))
                          (numerical_cols df))) \<or>
      r \<in> set (emitted_email df)"
    using report_parts(1) [OF assms(1)] assms(2) by auto
  then consider
      (missing) col where "col \<in> set (columns df)" "r \<in> set (emitted_missing df col)"
    | (outlier) c xs where "(c, xs) \<in> set (numerical_cols df)"
        "r \<in> set (records_of (emitted_outlier df forest np_percentile (c, xs)))"
    | (email) "r \<in> set (emitted_email df)"
    by auto
  then show ?thesis
  proof cases
    case missing
    have "sample_values r = map Label (take 3 (null_index df col)) \<and> original_indices r = None \<and>
          column r = name col"
      using missing(2) by (auto simp: emitted_missing_eq split: if_splits)
    then show ?thesis
      using missing(1) by auto
  next
    case outlier
    obtain s where s: "s \<in> set (columns df)" "name s = c"
      using outlier(1) by (auto simp: numerical_cols_mem)
    have r: "column r = c \<and> length (sample_values r) \<le> 3 \<and>
        (\<forall>picked. original_indices r = Some picked \<longrightarrow> length picked \<le> 3)"
      using outlier(2)
      by (auto simp: emitted_outlier_eq records_of_def
          split: if_splits sum.splits exn.splits)
    have "name s = column r" using s(2) r by simp
    then show ?thesis
      using s(1) r by blast
  next
    case email
    show ?thesis
    proof (cases "find (\<lambda>s. name s = ''email'') (columns df)")
      case None
      then show ?thesis using email by (simp add: emitted_email_eq)
    next
      case (Some col)
      then have r: "column r = ''email''"
        "sample_values r = take 3 (map (\<lambda>i. Cell (cells col ! i)) (invalid_email_rows col))"
        "original_indices r = Some (take 3 (row_labels df (invalid_email_rows col)))"
        using email by (auto simp: emitted_email_eq split: if_splits)
      have mem: "col \<in> set (columns df)" "name col = ''email''"
        using Some by (auto simp: find_Some_iff)
      show ?thesis
        using mem r by auto
    qed
  qed
qed

text \<open>
  C8 fails on a frame with a repeated index label. In the frame whose rows are labelled
  7, 7, 7, 9 and whose column \<open>a\<close> holds 100, 1, 2, 3, the only flagged row is row 0, with
  the value 100. The outlier record keeps the one label 7 as \<open>original_indices\<close>, but
  its \<open>sample_values\<close> are read back by label (\<open>df.loc[original_indices, col]\<close>): they
  are 100, 1, 2, the values of all three rows labelled 7. The values 1 and 2 belong to
  rows that were not flagged, so the samples are not a truncation of the matching set.
  The email check takes its samples from the selected rows themselves and has no such
  defect.
\<close>

theorem outlier_samples_read_back_by_label:
  "index df_repeated_labels = [7, 7, 7, 9] \<and>
   numerical_cols df_repeated_labels = [(''a'', [Some 100, Some 1, Some 2, Some 3])] \<and>
   far_forest (map snd (dropna repeated_values)) = Inr [- 1 / 5, 1 / 10, 1 / 10, 1 / 10] \<and>
   flagged_rows percentile_linear [- 1 / 5, 1 / 10, 1 / 10, 1 / 10] repeated_values = [0] \<and>
   detect_anomalies far_forest percentile_linear df_repeated_labels =
     Inr [\<lparr>atype = ''Outlier (Numerical)'', column = ''a'',
           description = ''Potential outliers detected using Isolation Forest. Score below 5th percentile.'',
           sample_values = [Cell (Some (Number 100)), Cell (Some (Number 1)),
                            Cell (Some (Number 2))],
           original_indices = Some [7]\<rparr>]"
  by code_simp

section \<open>Empty reports (C10)\<close>

lemma detect_anomalies_empty:
  assumes "\<forall>col\<in>set (columns df). emitted_missing df col = []"
    and "\<forall>cx\<in>set (numerical_cols df). emitted_outlier df forest np_percentile cx = Inr []"
    and "emitted_email df = []"
  shows "detect_anomalies forest np_percentile df = Inr []"
proof -
  have "\<forall>r\<in>set (map (emitted_outlier df forest np_percentile) (numerical_cols df)). \<exists>xs. r = Inr xs"
    using assms(2) by auto
  then have "collect (map (emitted_outlier df forest np_percentile) (numerical_cols df)) =
      Inr (concat (map records_of (map (emitted_outlier df forest np_percentile) (numerical_cols df))))"
    by (rule collect_all_Inr)
  moreover have "concat (map records_of (map (emitted_outlier df forest np_percentile) (numerical_cols df))) = []"
    using assms(2) by (simp add: records_of_def)
  moreover have "concat (map (emitted_missing df) (columns df)) = []"
    using assms(1) by simp
  ultimately show ?thesis
    using assms(3) by (simp add: detect_anomalies_collect)
qed

lemma eligible_Nil: "\<not> eligible []"
  by (simp add: eligible_def dropna_def List.map_filter_simps enumerate_simps)

lemma zero_rows_empty_report:
  assumes "wf_df df" and "nrows df = 0"
  shows "detect_anomalies forest np_percentile df = Inr []"
proof (rule detect_anomalies_empty)
  have nil: "cells col = []" if "col \<in> set (columns df)" for col
    using assms that by (auto simp: wf_df_def list_all_iff)
  show "\<forall>col\<in>set (columns df). emitted_missing df col = []"
    using nil by (simp add: emitted_missing_eq)
  show "\<forall>cx\<in>set (numerical_cols df). emitted_outlier df forest np_percentile cx = Inr []"
  proof
    fix cx assume cx: "cx \<in> set (numerical_cols df)"
    obtain c xs where c: "cx = (c, xs)" by (cases cx)
    then obtain s where s: "s \<in> set (columns df)" "data s = Numeric xs"
      using cx by (auto simp: numerical_cols_mem)
    have "xs = []" using nil [OF s(1)] s(2) by (simp add: cells_def)
    then show "emitted_outlier df forest np_percentile cx = Inr []"
      by (simp add: c emitted_outlier_eq eligible_Nil)
  qed
  show "emitted_email df = []"
  proof (cases "find (\<lambda>s. name s = ''email'') (columns df)")
    case None
    then show ?thesis by (simp add: emitted_email_eq)
  next
    case (Some col)
    then have "col \<in> set (columns df)" by (auto simp: find_Some_iff)
    then have "invalid_email_rows col = []"
      using nil by (simp add: invalid_email_rows_def)
    then show ?thesis using Some by (simp add: emitted_email_eq)
  qed
qed

lemma nothing_found_empty_report:
  assumes "nothing_found forest np_percentile df"
  shows "detect_anomalies forest np_percentile df = Inr []"
proof (rule detect_anomalies_empty)
  show "\<forall>col\<in>set (columns df). emitted_missing df col = []"
    using assms by (simp add: nothing_found_def emitted_missing_eq)
  show "\<forall>cx\<in>set (numerical_cols df). emitted_outlier df forest np_percentile cx = Inr []"
  proof
    fix cx assume cx: "cx \<in> set (numerical_cols df)"
    obtain c xs where c: "cx = (c, xs)" by (cases cx)
    show "emitted_outlier df forest np_percentile cx = Inr []"
    proof (cases "eligible xs")
      case True
      then have "case forest (map snd (dropna xs)) of
           Inr scores \<Rightarrow> flagged_positions np_percentile scores = []
         | Inl (ValueError m) \<Rightarrow> True
         | Inl (OtherError k m) \<Rightarrow> False"
        using assms cx c by (auto simp: nothing_found_def)
      then show ?thesis
        using True by (auto simp: c emitted_outlier_eq split: sum.splits exn.splits)
    next
      case False
      then show ?thesis by (simp add: c emitted_outlier_eq)
    qed
  qed
  show "emitted_email df = []"
    using assms by (auto simp: nothing_found_def emitted_email_eq split: option.splits)
qed

text \<open>
  C10. A well-formed dataset with zero rows yields the empty report with any forest, even
  one that always raises; so does a dataset in which no detector finds an issue. The
  percentage is computed only for a column with an absent cell, and such a column has at
  least one row: the division is never by zero and its result is finite.
\<close>

theorem empty_report:
  "(wf_df df \<and> nrows df = 0 \<longrightarrow> detect_anomalies forest np_percentile df = Inr []) \<and>
   (nothing_found forest np_percentile df \<longrightarrow> detect_anomalies forest np_percentile df = Inr []) \<and>
   (wf_df df \<longrightarrow>
      (\<forall>col\<in>set (columns df). list_ex isnull (cells col) \<longrightarrow>
         0 < nrows df \<and>
         (\<exists>q. missing_percentage (isnull_sum col) (nrows df) = Finite q)))"
proof (intro conjI impI ballI)
  assume "wf_df df \<and> nrows df = 0"
  then show "detect_anomalies forest np_percentile df = Inr []"
    using zero_rows_empty_report by blast
next
  assume "nothing_found forest np_percentile df"
  then show "detect_anomalies forest np_percentile df = Inr []"
    by (rule nothing_found_empty_report)
next
  fix col assume wf: "wf_df df" and col: "col \<in> set (columns df)"
    and ex: "list_ex isnull (cells col)"
  have "length (cells col) = nrows df" using wf col by (auto simp: wf_df_def list_all_iff)
  moreover have "cells col \<noteq> []" using ex by auto
  ultimately show "0 < nrows df" by (cases "cells col") auto
  then show "\<exists>q. missing_percentage (isnull_sum col) (nrows df) = Finite q"
    by (simp add: missing_percentage_def)
qed

theorem empty_report_witness:
  "wf_df df_zero_rows \<and> nrows df_zero_rows = 0 \<and>
   detect_anomalies memory_error_forest percentile_linear df_zero_rows = Inr [] \<and>
   nothing_found far_forest percentile_linear df_clean \<and>
   detect_anomalies far_forest percentile_linear df_clean = Inr [] \<and>
   wf_df df_missing \<and> list_ex isnull (cells age_column) \<and> 0 < nrows df_missing"
proof -
  have h1: "wf_df df_zero_rows" by code_simp
  have h2: "nrows df_zero_rows = 0" by (simp add: df_zero_rows_def nrows_def)
  have a: "\<forall>col\<in>set (columns df_clean). \<not> list_ex isnull (cells col)" by code_simp
  have n: "numerical_cols df_clean = [(''amount'', [Some 1, Some 2])]" by code_simp
  have s: "far_forest (map snd (dropna [Some 1, Some 2])) = Inr [1 / 10, 1 / 10]" by code_simp
  have fl: "flagged_positions percentile_linear [1 / 10, 1 / 10] = []" by code_simp
  have e: "find (\<lambda>s. name s = ''email'') (columns df_clean) =
      Some \<lparr>name = ''email'', data = Object [Some (Str ''a@b.com''), Some (Str ''c@d.org'')]\<rparr>"
    by code_simp
  have i: "invalid_email_rows
      \<lparr>name = ''email'', data = Object [Some (Str ''a@b.com''), Some (Str ''c@d.org'')]\<rparr> = []"
    by code_simp
  have h3: "nothing_found far_forest percentile_linear df_clean"
    unfolding nothing_found_def using a by (simp add: n s fl e i)
  have h4: "wf_df df_missing" by code_simp
  have h5: "age_column \<in> set (columns df_missing)" by (simp add: df_missing_def)
  have h6: "list_ex isnull (cells age_column)" by code_simp
  show ?thesis
    using empty_report [where df = df_zero_rows and forest = memory_error_forest
          and np_percentile = percentile_linear]
      empty_report [where df = df_clean and forest = far_forest
          and np_percentile = percentile_linear]
      empty_report [where df = df_missing and forest = far_forest
          and np_percentile = percentile_linear]
      h1 h2 h3 h4 h5 h6 by blast
qed

section \<open>Loading (C6)\<close>

lemma detect_anomalies_returns:
  assumes "sklearn_like forest"
  shows "\<exists>report. detect_anomalies forest np_percentile df = Inr report"
proof -
  have "\<forall>r\<in>set (map (emitted_outlier df forest np_percentile) (numerical_cols df)). \<exists>xs. r = Inr xs"
    using emitted_outlier_sklearn_like [OF assms] by auto
  then show ?thesis
    by (simp add: detect_anomalies_collect collect_all_Inr)
qed

lemma collect_Inl:
  "collect rs = Inl e \<Longrightarrow> Inl e \<in> set rs"
  by (induction rs) (auto split: sum.splits)

lemma detect_anomalies_raises:
  assumes "detect_anomalies forest np_percentile df = Inl e"
  shows "\<exists>k m. e = OtherError k m"
proof -
  have "collect (map (emitted_outlier df forest np_percentile) (numerical_cols df)) = Inl e"
    using assms by (simp add: detect_anomalies_collect split: sum.splits)
  then obtain cx where "emitted_outlier df forest np_percentile cx = Inl e"
    using collect_Inl by fastforce
  then show ?thesis
    by (cases cx) (auto simp: emitted_outlier_eq split: if_splits sum.splits exn.splits)
qed

text \<open>
  C6, as stated, fails. There is a third outcome: the source loads, and the forest raises
  an exception other than ValueError while one column is fitted. The handler of
  \<open>detect_anomalies\<close> does not catch it, so the run ends with that exception: neither a
  report nor a load error.
\<close>

theorem detector_error_outcome:
  "read_csv_example ''data.csv'' = Inr df_two \<and>
   load_data read_csv_example ''data.csv'' = Inr (Some df_two) \<and>
   run read_csv_example memory_error_forest percentile_linear ''data.csv'' =
     DetectorError (OtherError ''MemoryError'' ''out of memory'')"
  by code_simp

text \<open>
  C6, amended. When \<open>read_csv\<close> fails, \<open>load_data\<close> returns no dataset: it returns
  \<open>None\<close> for a missing file and lets every other exception (empty or unparsable source)
  pass, and the run ends as a load error. It returns a dataset exactly when \<open>read_csv\<close>
  produced that whole dataset, which then goes to \<open>detect_anomalies\<close>. A run ends in
  exactly one of three ways: a report, a load error, or an exception other than
  ValueError raised by the forest. With a forest that raises nothing but ValueError (and
  returns one score per sample), a run ends either in a report or in a load error.
\<close>

theorem load_all_or_nothing:
  "(read_csv src = Inl FileNotFoundError \<longrightarrow> load_data read_csv src = Inr None) \<and>
   (\<forall>e. read_csv src = Inl e \<and> e \<noteq> FileNotFoundError \<longrightarrow> load_data read_csv src = Inl e) \<and>
   (\<forall>e. read_csv src = Inl e \<longrightarrow>
      (\<forall>df. load_data read_csv src \<noteq> Inr (Some df)) \<and>
      run read_csv forest np_percentile src = LoadError e) \<and>
   (\<forall>df. load_data read_csv src = Inr (Some df) \<longleftrightarrow> read_csv src = Inr df) \<and>
   (\<forall>df. read_csv src = Inr df \<longrightarrow>
      run read_csv forest np_percentile src =
        (case detect_anomalies forest np_percentile df of
           Inl e \<Rightarrow> DetectorError e
         | Inr report \<Rightarrow> Report report)) \<and>
   ((\<exists>report. run read_csv forest np_percentile src = Report report) \<or>
    (\<exists>e. run read_csv forest np_percentile src = LoadError e) \<or>
    (\<exists>k m. run read_csv forest np_percentile src = DetectorError (OtherError k m))) \<and>
   (sklearn_like forest \<longrightarrow>
      (\<exists>report. run read_csv forest np_percentile src = Report report) \<or>
      (\<exists>e. run read_csv forest np_percentile src = LoadError e))"
proof (intro conjI allI impI)
  assume "read_csv src = Inl FileNotFoundError"
  then show "load_data read_csv src = Inr None" by (simp add: load_data_def)
next
  fix e assume "read_csv src = Inl e \<and> e \<noteq> FileNotFoundError"
  then show "load_data read_csv src = Inl e" by (cases e) (simp_all add: load_data_def)
next
  fix e df assume "read_csv src = Inl e"
  then show "load_data read_csv src \<noteq> Inr (Some df)" by (cases e) (simp_all add: load_data_def)
next
  fix e assume "read_csv src = Inl e"
  then show "run read_csv forest np_percentile src = LoadError e"
    by (cases e) (simp_all add: run_def load_data_def)
next
  fix df
  show "load_data read_csv src = Inr (Some df) \<longleftrightarrow> read_csv src = Inr df"
    by (auto simp: load_data_def split: sum.splits io_exn.splits)
next
  fix df assume "read_csv src = Inr df"
  then show "run read_csv forest np_percentile src =
        (case detect_anomalies forest np_percentile df of
           Inl e \<Rightarrow> DetectorError e
         | Inr report \<Rightarrow> Report report)"
    by (simp add: run_def load_data_def)
next
  show "(\<exists>report. run read_csv forest np_percentile src = Report report) \<or>
    (\<exists>e. run read_csv forest np_percentile src = LoadError e) \<or>
    (\<exists>k m. run read_csv forest np_percentile src = DetectorError (OtherError k m))"
  proof (cases "read_csv src")
    case (Inl e)
    then show ?thesis by (cases e) (simp_all add: run_def load_data_def)
  next
    case (Inr df)
    show ?thesis
    proof (cases "detect_anomalies forest np_percentile df")
      case (Inl e)
      then obtain k m where "e = OtherError k m"
        using detect_anomalies_raises by blast
      then show ?thesis using Inr Inl by (simp add: run_def load_data_def)
    next
      case (Inr report)
      then show ?thesis using \<open>read_csv src = Inr df\<close> by (simp add: run_def load_data_def)
    qed
  qed
next
  assume sk: "sklearn_like forest"
  show "(\<exists>report. run read_csv forest np_percentile src = Report report) \<or>
      (\<exists>e. run read_csv forest np_percentile src = LoadError e)"
  proof (cases "read_csv src")
    case (Inl e)
    then show ?thesis by (cases e) (simp_all add: run_def load_data_def)
  next
    case (Inr df)
    then show ?thesis
      using detect_anomalies_returns [OF sk, where np_percentile = np_percentile and df = df]
      by (auto simp: run_def load_data_def)
  qed
qed

theorem load_all_or_nothing_witness:
  "read_csv_example ''absent.csv'' = Inl FileNotFoundError \<and>
   load_data read_csv_example ''absent.csv'' = Inr None \<and>
   run read_csv_example far_forest percentile_linear ''absent.csv'' = LoadError FileNotFoundError \<and>
   read_csv_example ''empty.csv'' = Inl EmptyDataError \<and>
   load_data read_csv_example ''empty.csv'' = Inl EmptyDataError \<and>
   run read_csv_example far_forest percentile_linear ''empty.csv'' = LoadError EmptyDataError \<and>
   read_csv_example ''broken.csv'' = Inl ParserError \<and>
   load_data read_csv_example ''broken.csv'' = Inl ParserError \<and>
   read_csv_example ''data.csv'' = Inr df_two \<and>
   load_data read_csv_example ''data.csv'' = Inr (Some df_two) \<and>
   sklearn_like far_forest \<and>
   run read_csv_example far_forest percentile_linear ''data.csv'' = Report report_two"
proof -
  have a: "read_csv_example ''absent.csv'' = Inl FileNotFoundError"
    and b: "read_csv_example ''empty.csv'' = Inl EmptyDataError"
    and c: "read_csv_example ''broken.csv'' = Inl ParserError"
    and d: "read_csv_example ''data.csv'' = Inr df_two"
    by (simp_all add: read_csv_example_def)
  have s: "sklearn_like far_forest" by (simp add: sklearn_like_def far_forest_def)
  have r: "detect_anomalies far_forest percentile_linear df_two = Inr report_two" by code_simp
  show ?thesis
    using load_all_or_nothing [where read_csv = read_csv_example and src = "''absent.csv''"
          and forest = far_forest and np_percentile = percentile_linear]
      load_all_or_nothing [where read_csv = read_csv_example and src = "''empty.csv''"
          and forest = far_forest and np_percentile = percentile_linear]
      load_all_or_nothing [where read_csv = read_csv_example and src = "''broken.csv''"
          and forest = far_forest and np_percentile = percentile_linear]
      load_all_or_nothing [where read_csv = read_csv_example and src = "''data.csv''"
          and forest = far_forest and np_percentile = percentile_linear]
      a b c d s r
    by simp
qed

end
